theory Spec2Isabelle
  imports Main "HOL-Library.AList" "HOL-Library.Char_ord" "HOL-Library.List_Lexorder"
begin

section \<open>Strings and paths\<close>

text \<open>
  Python strings are modelled as \<^typ>\<open>string\<close>; the characters of the model are the
  code points below 256. Paths are compared as strings: two spellings of one file are
  not identified. The path functions are those of \<^verbatim>\<open>posixpath\<close>.
\<close>

definition newline :: char where
  "newline = CHR 0x0A"

definition sep :: char where
  "sep = CHR ''/''"

text \<open>\<^verbatim>\<open>os.path.basename\<close>: everything after the last separator.\<close>

definition basename :: "string \<Rightarrow> string" where
  "basename p = rev (takeWhile (\<lambda>c. c \<noteq> sep) (rev p))"

text \<open>\<^verbatim>\<open>os.path.join\<close> of two components; more components fold from the left.\<close>

definition path_join :: "string \<Rightarrow> string \<Rightarrow> string" where
  "path_join a b =
     (if b \<noteq> [] \<and> hd b = sep then b
      else if a = [] \<or> last a = sep then a @ b
      else a @ [sep] @ b)"

text \<open>\<^verbatim>\<open>"\n".join(xs)\<close>\<close>

fun join_lines :: "string list \<Rightarrow> string" where
  "join_lines [] = []"
| "join_lines [x] = x"
| "join_lines (x # y # ys) = x @ [newline] @ join_lines (y # ys)"

section \<open>The host file system\<close>

text \<open>
  What the code observes of the host: the entry at a path as \<^verbatim>\<open>lstat\<close> sees it, whether
  the host has symbolic links at all, and the error text with which the operating system
  refuses to create, write or remove an entry. Link targets are absolute paths.
\<close>

datatype node = Regular string | Symlink string | Directory | Special

record filesystem =
  nodes :: "string \<Rightarrow> node option"
  refusal :: "string \<Rightarrow> string option"
  symlinks_supported :: bool

text \<open>The number of links the host follows before giving up on a path.\<close>

definition symloop_max :: nat where
  "symloop_max = 40"

text \<open>The path that \<^verbatim>\<open>stat\<close> and \<^verbatim>\<open>open\<close> act on: links are followed.\<close>

fun follow :: "nat \<Rightarrow> filesystem \<Rightarrow> string \<Rightarrow> string option" where
  "follow 0 fs p = (case nodes fs p of Some (Symlink t) \<Rightarrow> None | _ \<Rightarrow> Some p)"
| "follow (Suc k) fs p = (case nodes fs p of Some (Symlink t) \<Rightarrow> follow k fs t | _ \<Rightarrow> Some p)"

definition stat :: "filesystem \<Rightarrow> string \<Rightarrow> node option" where
  "stat fs p = (case follow symloop_max fs p of None \<Rightarrow> None | Some q \<Rightarrow> nodes fs q)"

text \<open>\<^verbatim>\<open>Path.is_symlink\<close>, \<^verbatim>\<open>os.path.exists\<close> / \<^verbatim>\<open>Path.exists\<close>, \<^verbatim>\<open>Path.is_file\<close>\<close>

definition is_symlink :: "filesystem \<Rightarrow> string \<Rightarrow> bool" where
  "is_symlink fs p = (case nodes fs p of Some (Symlink t) \<Rightarrow> True | _ \<Rightarrow> False)"

definition path_exists :: "filesystem \<Rightarrow> string \<Rightarrow> bool" where
  "path_exists fs p = (stat fs p \<noteq> None)"

definition is_file :: "filesystem \<Rightarrow> string \<Rightarrow> bool" where
  "is_file fs p = (case stat fs p of Some (Regular c) \<Rightarrow> True | _ \<Rightarrow> False)"

text \<open>
  A failing call raises \<^verbatim>\<open>OSError\<close>; the model returns the text of the error on the left.
  \<^verbatim>\<open>Path.unlink\<close> removes the entry itself, never the target of a link.
\<close>

definition os_unlink :: "filesystem \<Rightarrow> string \<Rightarrow> string + filesystem" where
  "os_unlink fs p =
     (case refusal fs p of
        Some msg \<Rightarrow> Inl msg
      | None \<Rightarrow>
          (case nodes fs p of
             None \<Rightarrow> Inl ''No such file or directory''
           | Some n \<Rightarrow> Inr (fs\<lparr>nodes := (nodes fs)(p := None)\<rparr>)))"

text \<open>
  \<^verbatim>\<open>os.symlink(src, dst)\<close> creates a link at \<open>dst\<close> that points to \<open>src\<close>; on a host
  without symbolic links it raises \<^verbatim>\<open>NotImplementedError\<close>.
\<close>

datatype os_error = NotImplementedError | OSError string

definition os_symlink :: "filesystem \<Rightarrow> string \<Rightarrow> string \<Rightarrow> os_error + filesystem" where
  "os_symlink fs src dst =
     (if \<not> symlinks_supported fs then Inl NotImplementedError
      else case refusal fs dst of
        Some msg \<Rightarrow> Inl (OSError msg)
      | None \<Rightarrow>
          (case nodes fs dst of
             Some n \<Rightarrow> Inl (OSError ''File exists'')
           | None \<Rightarrow> Inr (fs\<lparr>nodes := (nodes fs)(dst := Some (Symlink src))\<rparr>)))"

text \<open>
  \<^verbatim>\<open>shutil.copyfile(src, dst)\<close>: both paths are opened through their links; the bytes of
  the source replace those of the destination.
\<close>

definition copyfile :: "filesystem \<Rightarrow> string \<Rightarrow> string \<Rightarrow> string + filesystem" where
  "copyfile fs src dst =
     (case follow symloop_max fs src of
        None \<Rightarrow> Inl ''Too many levels of symbolic links''
      | Some s \<Rightarrow>
          (case nodes fs s of
             Some (Regular bytes) \<Rightarrow>
               (case follow symloop_max fs dst of
                  None \<Rightarrow> Inl ''Too many levels of symbolic links''
                | Some d \<Rightarrow>
                    if d = s then Inl ''Source and destination are the same file''
                    else (case refusal fs d of
                       Some msg \<Rightarrow> Inl msg
                     | None \<Rightarrow>
                         (case nodes fs d of
                            None \<Rightarrow> Inr (fs\<lparr>nodes := (nodes fs)(d := Some (Regular bytes))\<rparr>)
                          | Some (Regular old) \<Rightarrow>
                              Inr (fs\<lparr>nodes := (nodes fs)(d := Some (Regular bytes))\<rparr>)
                          | Some other \<Rightarrow> Inl ''Not a regular file'')))
           | Some other \<Rightarrow> Inl ''Not a regular file''
           | None \<Rightarrow> Inl ''No such file or directory''))"

section \<open>The font file name pattern\<close>

datatype font_type = Otf | Svg | Woff

fun type_name :: "font_type \<Rightarrow> string" where
  "type_name Otf = ''otf''"
| "type_name Svg = ''svg''"
| "type_name Woff = ''woff''"

text \<open>
  \<^verbatim>\<open>font_re = re.compile('(?P<family>.*)-(?P<size>brace|\d\d)\.(?P<type>otf|svg|woff)$')\<close>

  The matcher below is the backtracking search of \<^verbatim>\<open>re.match\<close> on this pattern, one
  function per construct, each taking the rest of the pattern as a continuation:
  a literal, the alternatives of a group tried from left to right, \<^verbatim>\<open>\d\<close>, the
  anchor \<^verbatim>\<open>$\<close> (the end of the string, or just before a newline that ends it), and the
  greedy \<^verbatim>\<open>.*\<close>, which takes the longest run of characters other than newline for
  which the rest of the pattern matches.
\<close>

fun strip_prefix :: "string \<Rightarrow> string \<Rightarrow> string option" where
  "strip_prefix [] r = Some r"
| "strip_prefix (c # cs) [] = None"
| "strip_prefix (c # cs) (d # ds) = (if c = d then strip_prefix cs ds else None)"

definition literal :: "string \<Rightarrow> (string \<Rightarrow> 'a option) \<Rightarrow> string \<Rightarrow> 'a option" where
  "literal lit k r = (case strip_prefix lit r of None \<Rightarrow> None | Some r' \<Rightarrow> k r')"

definition orelse :: "'a option \<Rightarrow> 'a option \<Rightarrow> 'a option" where
  "orelse a b = (case a of Some x \<Rightarrow> Some x | None \<Rightarrow> b)"

definition is_digit :: "char \<Rightarrow> bool" where
  "is_digit c = (c \<in> set ''0123456789'')"

definition two_digits :: "(string \<Rightarrow> string \<Rightarrow> 'a option) \<Rightarrow> string \<Rightarrow> 'a option" where
  "two_digits k r =
     (case r of
        d1 # d2 # r' \<Rightarrow> if is_digit d1 \<and> is_digit d2 then k [d1, d2] r' else None
      | _ \<Rightarrow> None)"

definition end_anchor :: "'a \<Rightarrow> string \<Rightarrow> 'a option" where
  "end_anchor v r = (if r = [] \<or> r = [newline] then Some v else None)"

definition size_group :: "(string \<Rightarrow> string \<Rightarrow> 'a option) \<Rightarrow> string \<Rightarrow> 'a option" where
  "size_group k r = orelse (literal ''brace'' (k ''brace'') r) (two_digits k r)"

definition type_group :: "(font_type \<Rightarrow> string \<Rightarrow> 'a option) \<Rightarrow> string \<Rightarrow> 'a option" where
  "type_group k r =
     orelse (literal ''otf'' (k Otf) r)
       (orelse (literal ''svg'' (k Svg) r) (literal ''woff'' (k Woff) r))"

definition after_family :: "string \<Rightarrow> string \<Rightarrow> (string \<times> string \<times> font_type) option" where
  "after_family fam r =
     literal ''-'' (size_group (\<lambda>sz. literal ''.'' (type_group (\<lambda>ty. end_anchor (fam, sz, ty))))) r"

fun dot_star :: "string \<Rightarrow> string \<Rightarrow> (string \<times> string \<times> font_type) option" where
  "dot_star fam [] = after_family fam []"
| "dot_star fam (c # cs) =
     (if c = newline then after_family fam (c # cs)
      else orelse (dot_star (fam @ [c]) cs) (after_family fam (c # cs)))"

definition font_re_match :: "string \<Rightarrow> (string \<times> string \<times> font_type) option" where
  "font_re_match s = dot_star [] s"

text \<open>\<^verbatim>\<open>MusicFontFamily.parse_filename\<close>: the groups (family, size, type) or \<open>None\<close>.\<close>

definition parse_filename :: "string \<Rightarrow> (string \<times> string \<times> font_type) option" where
  "parse_filename file = font_re_match (basename file)"

text \<open>
  The names that the pattern describes: \<^verbatim>\<open><family>-<size>.<type>\<close> with a size of two
  decimal digits or \<^verbatim>\<open>brace\<close>.
\<close>

definition size_ok :: "string \<Rightarrow> bool" where
  "size_ok sz =
     (sz = ''brace'' \<or> (case sz of [d1, d2] \<Rightarrow> is_digit d1 \<and> is_digit d2 | _ \<Rightarrow> False))"

definition built_name :: "string \<Rightarrow> string \<Rightarrow> font_type \<Rightarrow> string" where
  "built_name fam sz ty = fam @ ''-'' @ sz @ ''.'' @ type_name ty"

section \<open>Font files and families\<close>

text \<open>
  The exceptions of the module, with their messages. The translation function \<^verbatim>\<open>_\<close> is
  taken to return its argument (no message catalogue is installed). \<open>AttributeError\<close> and
  \<open>KeyError\<close> are what the interpreter raises for a method call on \<^verbatim>\<open>None\<close> and for a
  missing dictionary key.
\<close>

datatype error =
    MusicFontException string
  | MusicFontPermissionException string
  | MusicFontFileRemoveException string
  | AttributeError
  | KeyError

datatype MusicFontStatus = FILE | MISSING_FILE | LINK | BROKEN_LINK | MISSING

text \<open>The field \<open>font_file\<close> is the attribute \<^verbatim>\<open>file\<close> of the class.\<close>

record MusicFontFile =
  font_file :: string
  status :: "MusicFontStatus option"
  install :: bool

definition MusicFontFile_init :: "string \<Rightarrow> MusicFontFile" where
  "MusicFontFile_init f = \<lparr>font_file = f, status = None, install = False\<rparr>"

text \<open>
  A Python dictionary keeps its keys in insertion order; assigning to a key that is
  present keeps its position. It is modelled as an association list, assignment being
  \<^const>\<open>AList.update\<close> and \<^verbatim>\<open>pop\<close> being \<^const>\<open>AList.delete\<close>. The dictionary
  \<^verbatim>\<open>_files\<close> has the three types for its keys from construction on, so it is a function
  of \<^typ>\<open>font_type\<close>; iteration over it visits \<open>Otf\<close>, \<open>Svg\<close>, \<open>Woff\<close> in this order.
\<close>

type_synonym slots = "(string \<times> MusicFontFile) list"

record MusicFontFamily =
  family :: "string option"
  files :: "font_type \<Rightarrow> slots"

definition all_types :: "font_type list" where
  "all_types = [Otf, Svg, Woff]"

text \<open>\<^verbatim>\<open>MusicFontFamily.check_file\<close>: family, type, size or a \<^verbatim>\<open>MusicFontException\<close>.\<close>

definition check_file :: "filesystem \<Rightarrow> string \<Rightarrow> error + (string \<times> font_type \<times> string)" where
  "check_file fs f =
     (if \<not> path_exists fs f then
        Inl (MusicFontException (f @ '' does not point to an existing file or link''))
      else case parse_filename f of
        None \<Rightarrow> Inl (MusicFontException (''File '' @ f @ '' does not appear to be a valid font file''))
      | Some (fam, sz, ty) \<Rightarrow> Inr (fam, ty, sz))"

definition MusicFontFamily_add ::
  "MusicFontFamily \<Rightarrow> font_type \<Rightarrow> string \<Rightarrow> string \<Rightarrow> MusicFontFamily" where
  "MusicFontFamily_add F ty sz f =
     F\<lparr>files := (files F)(ty := AList.update sz (MusicFontFile_init f) (files F ty))\<rparr>"

text \<open>
  \<^verbatim>\<open>MusicFontFamily.add_file\<close>. A family name that is \<^verbatim>\<open>None\<close> or the empty string is
  false in a condition.
\<close>

definition MusicFontFamily_add_file ::
  "filesystem \<Rightarrow> MusicFontFamily \<Rightarrow> string \<Rightarrow> error + MusicFontFamily" where
  "MusicFontFamily_add_file fs F f =
     (case check_file fs f of
        Inl e \<Rightarrow> Inl e
      | Inr (fam, ty, sz) \<Rightarrow>
          (case family F of
             None \<Rightarrow> Inr (MusicFontFamily_add (F\<lparr>family := Some fam\<rparr>) ty sz f)
           | Some n \<Rightarrow>
               if n \<noteq> [] \<and> n \<noteq> fam then
                 Inl (MusicFontException
                        (''File '' @ f @ '' does not belong to font family '' @ n))
               else if n = [] then Inr (MusicFontFamily_add (F\<lparr>family := Some fam\<rparr>) ty sz f)
               else Inr (MusicFontFamily_add F ty sz f)))"

text \<open>
  \<^verbatim>\<open>MusicFontFamily(file)\<close>: without a file, or with the empty string, the family starts
  empty and unnamed.
\<close>

definition MusicFontFamily_empty :: MusicFontFamily where
  "MusicFontFamily_empty = \<lparr>family = None, files = (\<lambda>ty. [])\<rparr>"

definition MusicFontFamily_init :: "filesystem \<Rightarrow> string option \<Rightarrow> error + MusicFontFamily" where
  "MusicFontFamily_init fs arg =
     (case arg of
        None \<Rightarrow> Inr MusicFontFamily_empty
      | Some f \<Rightarrow>
          if f = [] then Inr MusicFontFamily_empty
          else MusicFontFamily_add_file fs MusicFontFamily_empty f)"

text \<open>
  \<^verbatim>\<open>MusicFontFamily.status\<close>: the status of a slot, and the family with the status stored
  in the file object when it was computed by this call.
\<close>

definition resolve_status :: "filesystem \<Rightarrow> string \<Rightarrow> MusicFontStatus" where
  "resolve_status fs f =
     (if is_symlink fs f then (if path_exists fs f then LINK else BROKEN_LINK)
      else if is_file fs f then FILE
      else MISSING_FILE)"

definition MusicFontFamily_status ::
  "filesystem \<Rightarrow> MusicFontFamily \<Rightarrow> font_type \<Rightarrow> string \<Rightarrow> MusicFontStatus \<times> MusicFontFamily" where
  "MusicFontFamily_status fs F ty sz =
     (case map_of (files F ty) sz of
        None \<Rightarrow> (MISSING, F)
      | Some font \<Rightarrow>
          (case status font of
             Some st \<Rightarrow> (st, F)
           | None \<Rightarrow>
               (resolve_status fs (font_file font),
                F\<lparr>files := (files F)(ty :=
                     AList.update sz (font\<lparr>status := Some (resolve_status fs (font_file font))\<rparr>)
                       (files F ty))\<rparr>)))"

text \<open>\<^verbatim>\<open>MusicFontFamily.walk\<close>: type, size and file object of every slot.\<close>

definition MusicFontFamily_walk :: "MusicFontFamily \<Rightarrow> (font_type \<times> string \<times> MusicFontFile) list" where
  "MusicFontFamily_walk F =
     concat (map (\<lambda>ty. map (\<lambda>(sz, font). (ty, sz, font)) (files F ty)) all_types)"

definition MusicFontFamily_flag_all_for_install :: "MusicFontFamily \<Rightarrow> MusicFontFamily" where
  "MusicFontFamily_flag_all_for_install F =
     F\<lparr>files := (\<lambda>ty. map (\<lambda>(sz, font). (sz, font\<lparr>install := True\<rparr>)) (files F ty))\<rparr>"

text \<open>
  \<^verbatim>\<open>MusicFontFamily.flag_for_install\<close>. One round of the inner loop is \<open>flag_slot\<close>: the
  status of the own slot is asked first, that of the target only when the own one is
  \<open>FILE\<close> or \<open>LINK\<close>, and both calls may store a status. The file object whose flag is
  set is the one in the slot.
\<close>

definition usable :: "MusicFontStatus \<Rightarrow> bool" where
  "usable st = (st = FILE \<or> st = LINK)"

definition set_install :: "MusicFontFamily \<Rightarrow> font_type \<Rightarrow> string \<Rightarrow> MusicFontFamily" where
  "set_install F ty sz =
     (case map_of (files F ty) sz of
        None \<Rightarrow> F
      | Some font \<Rightarrow>
          F\<lparr>files := (files F)(ty := AList.update sz (font\<lparr>install := True\<rparr>) (files F ty))\<rparr>)"

definition flag_slot ::
  "filesystem \<Rightarrow> font_type \<times> string \<Rightarrow> MusicFontFamily \<times> MusicFontFamily
     \<Rightarrow> MusicFontFamily \<times> MusicFontFamily" where
  "flag_slot fs slot FT =
     (case slot of (ty, sz) \<Rightarrow>
      case FT of (F, T) \<Rightarrow>
      case MusicFontFamily_status fs F ty sz of (own, F1) \<Rightarrow>
        if usable own then
          (case MusicFontFamily_status fs T ty sz of (there, T1) \<Rightarrow>
             if \<not> usable there then (set_install F1 ty sz, T1) else (F1, T1))
        else (F1, T))"

definition slot_keys :: "MusicFontFamily \<Rightarrow> (font_type \<times> string) list" where
  "slot_keys F = concat (map (\<lambda>ty. map (\<lambda>sz. (ty, sz)) (map fst (files F ty))) all_types)"

definition MusicFontFamily_flag_for_install ::
  "filesystem \<Rightarrow> MusicFontFamily \<Rightarrow> MusicFontFamily \<Rightarrow> MusicFontFamily \<times> MusicFontFamily" where
  "MusicFontFamily_flag_for_install fs F T = fold (flag_slot fs) (slot_keys F) (F, T)"

section \<open>Lists of families\<close>

type_synonym registry = "(string \<times> MusicFontFamily) list"

text \<open>\<^verbatim>\<open>AbstractMusicFontList.add_file\<close>\<close>

definition AbstractMusicFontList_add_file :: "filesystem \<Rightarrow> registry \<Rightarrow> string \<Rightarrow> error + registry" where
  "AbstractMusicFontList_add_file fs reg f =
     (case check_file fs f of
        Inl e \<Rightarrow> Inl e
      | Inr (fam, ty, sz) \<Rightarrow>
          (case map_of reg fam of
             None \<Rightarrow>
               (case MusicFontFamily_init fs (Some f) of
                  Inl e \<Rightarrow> Inl e
                | Inr F \<Rightarrow> Inr (AList.update fam F reg))
           | Some F \<Rightarrow> Inr (AList.update fam (MusicFontFamily_add F ty sz f) reg)))"

text \<open>
  \<^verbatim>\<open>AbstractMusicFontList.add_tree\<close>. The argument \<open>found\<close> is what the walk over the
  directory tree yields: the joined path of every file, in the order of the walk. Any
  exception of \<open>add_file\<close> is swallowed.
\<close>

definition add_tree_step :: "filesystem \<Rightarrow> string \<Rightarrow> registry \<Rightarrow> registry" where
  "add_tree_step fs f reg =
     (case AbstractMusicFontList_add_file fs reg f of Inl e \<Rightarrow> reg | Inr reg' \<Rightarrow> reg')"

definition AbstractMusicFontList_add_tree :: "filesystem \<Rightarrow> string list \<Rightarrow> registry \<Rightarrow> registry" where
  "AbstractMusicFontList_add_tree fs found reg = fold (add_tree_step fs) found reg"

definition AbstractMusicFontList_families :: "registry \<Rightarrow> string list" where
  "AbstractMusicFontList_families reg = sort (map fst reg)"

definition AbstractMusicFontList_family :: "registry \<Rightarrow> string \<Rightarrow> MusicFontFamily option" where
  "AbstractMusicFontList_family reg name = map_of reg name"

text \<open>\<^verbatim>\<open>AbstractMusicFontList.walk\<close>, reduced to the family name, type, size and file object.\<close>

definition AbstractMusicFontList_walk ::
  "registry \<Rightarrow> (string \<times> font_type \<times> string \<times> MusicFontFile) list" where
  "AbstractMusicFontList_walk reg =
     concat (map (\<lambda>name.
        case AbstractMusicFontList_family reg name of
          None \<Rightarrow> []
        | Some F \<Rightarrow> map (\<lambda>(ty, sz, font). (name, ty, sz, font)) (MusicFontFamily_walk F))
       (map fst reg))"


section \<open>The font repository\<close>

record AbstractMusicFontList =
  families :: registry

record MusicFontRepo = AbstractMusicFontList +
  root :: string
  installable_fonts :: registry

definition MusicFontRepo_init :: "filesystem \<Rightarrow> string \<Rightarrow> string list \<Rightarrow> MusicFontRepo" where
  "MusicFontRepo_init fs r found =
     \<lparr>families = AbstractMusicFontList_add_tree fs found [], root = r, installable_fonts = []\<rparr>"

text \<open>
  \<^verbatim>\<open>MusicFontRepo.flag_for_install\<close>. The first loop visits the family names of the
  repository; \<open>flag_family\<close> is one round of it, on the families of the repository and of
  the installed list. The second loop adds every flagged file of the walk to
  \<^verbatim>\<open>installable_fonts\<close>, which was cleared at the start; an exception of \<open>add_file\<close> ends
  the call and leaves what was done.
\<close>

definition flag_family :: "filesystem \<Rightarrow> string \<Rightarrow> registry \<times> registry \<Rightarrow> registry \<times> registry" where
  "flag_family fs name RI =
     (case RI of (R, I) \<Rightarrow>
      case AbstractMusicFontList_family R name of
        None \<Rightarrow> (R, I)
      | Some F \<Rightarrow>
          (case AbstractMusicFontList_family I name of
             None \<Rightarrow> (AList.update name (MusicFontFamily_flag_all_for_install F) R, I)
           | Some T \<Rightarrow>
               (case MusicFontFamily_flag_for_install fs F T of
                  (F', T') \<Rightarrow> (AList.update name F' R, AList.update name T' I))))"

fun add_flagged :: "filesystem \<Rightarrow> MusicFontFile list \<Rightarrow> registry \<Rightarrow> error option \<times> registry" where
  "add_flagged fs [] inst = (None, inst)"
| "add_flagged fs (font # fonts) inst =
     (if install font then
        (case AbstractMusicFontList_add_file fs inst (font_file font) of
           Inl e \<Rightarrow> (Some e, inst)
         | Inr inst' \<Rightarrow> add_flagged fs fonts inst')
      else add_flagged fs fonts inst)"

definition walk_fonts :: "registry \<Rightarrow> MusicFontFile list" where
  "walk_fonts reg = map (\<lambda>(name, ty, sz, font). font) (AbstractMusicFontList_walk reg)"

definition MusicFontRepo_flag_for_install ::
  "filesystem \<Rightarrow> MusicFontRepo \<Rightarrow> registry \<Rightarrow> error option \<times> MusicFontRepo \<times> registry" where
  "MusicFontRepo_flag_for_install fs repo installed =
     (case fold (flag_family fs) (map fst (families repo)) (families repo, installed) of
        (R, I) \<Rightarrow>
          (case add_flagged fs (walk_fonts R) [] of
             (err, inst) \<Rightarrow> (err, repo\<lparr>families := R, installable_fonts := inst\<rparr>, I)))"

section \<open>The installed fonts\<close>

record InstalledMusicFonts = AbstractMusicFontList +
  font_root :: string

definition InstalledMusicFonts_init ::
  "filesystem \<Rightarrow> string \<Rightarrow> string list \<Rightarrow> InstalledMusicFonts" where
  "InstalledMusicFonts_init fs datadir found =
     \<lparr>families = AbstractMusicFontList_add_tree fs found [], font_root = path_join datadir ''fonts''\<rparr>"

definition InstalledMusicFonts_font_dir :: "InstalledMusicFonts \<Rightarrow> font_type \<Rightarrow> string" where
  "InstalledMusicFonts_font_dir inst ty =
     path_join (font_root inst) (if ty = Otf then ''otf'' else ''svg'')"

definition install_target :: "InstalledMusicFonts \<Rightarrow> font_type \<Rightarrow> string \<Rightarrow> string" where
  "install_target inst ty f =
     path_join (path_join (font_root inst) (InstalledMusicFonts_font_dir inst ty)) (basename f)"

definition install_failed :: "string \<Rightarrow> error" where
  "install_failed e = MusicFontPermissionException (''Font installation failed:'' @ [newline] @ e)"

text \<open>The last statement of \<^verbatim>\<open>install\<close>: \<^verbatim>\<open>self.add_file(target)\<close>.\<close>

definition register_target ::
  "filesystem \<Rightarrow> InstalledMusicFonts \<Rightarrow> string \<Rightarrow> error option \<times> filesystem \<times> InstalledMusicFonts" where
  "register_target fs inst target =
     (case AbstractMusicFontList_add_file fs (families inst) target of
        Inl e \<Rightarrow> (Some e, fs, inst)
      | Inr reg \<Rightarrow> (None, fs, inst\<lparr>families := reg\<rparr>))"

text \<open>
  \<^verbatim>\<open>InstalledMusicFonts.install\<close>. The result is the exception raised, if any, with the
  file system and the list as the call leaves them.
\<close>

function InstalledMusicFonts_install ::
  "filesystem \<Rightarrow> InstalledMusicFonts \<Rightarrow> font_type \<Rightarrow> string \<Rightarrow> bool
     \<Rightarrow> error option \<times> filesystem \<times> InstalledMusicFonts" where
  "InstalledMusicFonts_install fs inst ty f copy =
     (if copy then
        (case copyfile fs f (install_target inst ty f) of
           Inl e \<Rightarrow> (Some (install_failed e), fs, inst)
         | Inr fs' \<Rightarrow> register_target fs' inst (install_target inst ty f))
      else
        (case os_symlink fs f (install_target inst ty f) of
           Inl NotImplementedError \<Rightarrow>
             (case InstalledMusicFonts_install fs inst ty f True of
                (Some e, fs', inst') \<Rightarrow> (Some e, fs', inst')
              | (None, fs', inst') \<Rightarrow> register_target fs' inst' (install_target inst ty f))
         | Inl (OSError e) \<Rightarrow> (Some (install_failed e), fs, inst)
         | Inr fs' \<Rightarrow> register_target fs' inst (install_target inst ty f)))"
  by pat_completeness auto
termination
  by (relation "measure (\<lambda>(fs, inst, ty, f, copy). if copy then 0 else 1)") auto

text \<open>
  \<^verbatim>\<open>InstalledMusicFonts.remove\<close>, on the family names of the selected rows. The function
  \<open>Path_str\<close> is \<^verbatim>\<open>str(Path(p))\<close>, the spelling of a path that \<^verbatim>\<open>pathlib\<close> prints.
\<close>

fun unlink_all :: "filesystem \<Rightarrow> string list \<Rightarrow> string option \<times> filesystem" where
  "unlink_all fs [] = (None, fs)"
| "unlink_all fs (link # links) =
     (case os_unlink fs link of
        Inl e \<Rightarrow> (Some e, fs)
      | Inr fs' \<Rightarrow> unlink_all fs' links)"

definition family_links :: "filesystem \<Rightarrow> MusicFontFamily \<Rightarrow> string list" where
  "family_links fs F =
     map (\<lambda>(ty, sz, font). font_file font)
       (filter (\<lambda>(ty, sz, font). is_symlink fs (font_file font)) (MusicFontFamily_walk F))"

definition family_real_files :: "filesystem \<Rightarrow> MusicFontFamily \<Rightarrow> string list" where
  "family_real_files fs F =
     map (\<lambda>(ty, sz, font). font_file font)
       (filter (\<lambda>(ty, sz, font). \<not> is_symlink fs (font_file font)) (MusicFontFamily_walk F))"

definition removal_failed :: "string \<Rightarrow> error" where
  "removal_failed e = MusicFontPermissionException (''Font removal failed:'' @ [newline] @ e)"

fun InstalledMusicFonts_remove ::
  "(string \<Rightarrow> string) \<Rightarrow> filesystem \<Rightarrow> InstalledMusicFonts \<Rightarrow> string list
     \<Rightarrow> error option \<times> filesystem \<times> InstalledMusicFonts" where
  "InstalledMusicFonts_remove Path_str fs inst [] = (None, fs, inst)"
| "InstalledMusicFonts_remove Path_str fs inst (family_name # indexes) =
     (case AbstractMusicFontList_family (families inst) family_name of
        None \<Rightarrow> (Some AttributeError, fs, inst)
      | Some F \<Rightarrow>
          if family_real_files fs F \<noteq> [] then
            (Some (MusicFontFileRemoveException
                     (join_lines (map Path_str (family_real_files fs F)))), fs, inst)
          else
            (case unlink_all fs (family_links fs F) of
               (Some e, fs') \<Rightarrow> (Some (removal_failed e), fs', inst)
             | (None, fs') \<Rightarrow>
                 InstalledMusicFonts_remove Path_str fs'
                   (inst\<lparr>families := AList.delete family_name (families inst)\<rparr>) indexes))"

section \<open>Documents under version control\<close>

text \<open>
  Modelled from the spec: \<^verbatim>\<open>gitrepo.RepoManager\<close> is not among the sources. The spec
  says that \<^verbatim>\<open>track_document(view, root, relative_path)\<close> registers the view under the
  repository and that \<^verbatim>\<open>untrack_document(root, relative_path)\<close> removes that
  registration.
\<close>

type_synonym 'v RepoManager = "((string \<times> string) \<times> 'v) list"

definition track_document :: "'v RepoManager \<Rightarrow> 'v \<Rightarrow> string \<Rightarrow> string \<Rightarrow> 'v RepoManager" where
  "track_document rm view root_path relative_path = AList.update (root_path, relative_path) view rm"

definition untrack_document :: "'v RepoManager \<Rightarrow> string \<Rightarrow> string \<Rightarrow> 'v RepoManager" where
  "untrack_document rm root_path relative_path = AList.delete (root_path, relative_path) rm"

text \<open>
  The manager. A URL is the path it holds, empty for the empty URL. The three functions
  \<^verbatim>\<open>extract_vcs_path\<close> of \<^verbatim>\<open>GitHelper\<close>, \<^verbatim>\<open>HgHelper\<close> and \<^verbatim>\<open>SvnHelper\<close> are not among the
  sources and are parameters: each returns the root and the relative path, the root
  empty when the path is not under that system.
\<close>

record ('d, 'v) VCSManager =
  doc_view_map :: "('d \<times> 'v) list"
  git_repo_manager :: "'v RepoManager"

record helpers =
  git_extract :: "string \<Rightarrow> string \<times> string"
  hg_extract :: "string \<Rightarrow> string \<times> string"
  svn_extract :: "string \<Rightarrow> string \<times> string"

text \<open>The second half of \<^verbatim>\<open>slotDocumentUrlChanged\<close>, from line 87 on.\<close>

definition track_new_url ::
  "helpers \<Rightarrow> ('d, 'v) VCSManager \<Rightarrow> 'd \<Rightarrow> string \<Rightarrow> error option \<times> ('d, 'v) VCSManager" where
  "track_new_url h m doc url =
     (case git_extract h url of (root_path, relative_path) \<Rightarrow>
        if root_path \<noteq> [] then
          (case map_of (doc_view_map m) doc of
             None \<Rightarrow> (Some KeyError, m)
           | Some view \<Rightarrow>
               (None, m\<lparr>git_repo_manager :=
                          track_document (git_repo_manager m) view root_path relative_path\<rparr>))
        else
          (case hg_extract h url of (root_path, relative_path) \<Rightarrow>
             if root_path \<noteq> [] then (None, m)
             else
               (case svn_extract h url of (root_path, relative_path) \<Rightarrow>
                  if root_path \<noteq> [] then (None, m) else (None, m))))"

definition VCSManager_slotDocumentUrlChanged ::
  "helpers \<Rightarrow> ('d, 'v) VCSManager \<Rightarrow> 'd \<Rightarrow> string \<Rightarrow> string
     \<Rightarrow> error option \<times> ('d, 'v) VCSManager" where
  "VCSManager_slotDocumentUrlChanged h m doc url old =
     (if old \<noteq> [] then
        (case git_extract h old of (root_path, relative_path) \<Rightarrow>
           if root_path \<noteq> [] then
             (None, m\<lparr>git_repo_manager :=
                        untrack_document (git_repo_manager m) root_path relative_path\<rparr>)
           else
             (case hg_extract h old of (root_path, relative_path) \<Rightarrow>
                if root_path \<noteq> [] then (None, m)
                else
                  (case svn_extract h old of (root_path, relative_path) \<Rightarrow>
                     if root_path \<noteq> [] then (None, m)
                     else track_new_url h m doc url)))
      else track_new_url h m doc url)"

section \<open>What is seen of a slot\<close>

text \<open>
  The path, the install flag and the status of the slot of a type and a size, for the
  statements about flagging; and the condition under which \<open>flag_for_install\<close> sets the
  flag of a slot.
\<close>

definition slot_file :: "MusicFontFamily \<Rightarrow> font_type \<Rightarrow> string \<Rightarrow> string option" where
  "slot_file F ty sz = map_option font_file (map_of (files F ty) sz)"

definition slot_install :: "MusicFontFamily \<Rightarrow> font_type \<Rightarrow> string \<Rightarrow> bool option" where
  "slot_install F ty sz = map_option install (map_of (files F ty) sz)"

definition slot_status :: "filesystem \<Rightarrow> MusicFontFamily \<Rightarrow> font_type \<Rightarrow> string \<Rightarrow> MusicFontStatus" where
  "slot_status fs F ty sz = fst (MusicFontFamily_status fs F ty sz)"

definition should_flag ::
  "filesystem \<Rightarrow> MusicFontFamily \<Rightarrow> MusicFontFamily \<Rightarrow> font_type \<Rightarrow> string \<Rightarrow> bool" where
  "should_flag fs F T ty sz = (usable (slot_status fs F ty sz) \<and> \<not> usable (slot_status fs T ty sz))"

text \<open>
  The file object in the slot of a family of a list, and the list after the status of a
  slot was asked: the call stores the status in the file object.
\<close>

definition list_slot :: "registry \<Rightarrow> string \<Rightarrow> font_type \<Rightarrow> string \<Rightarrow> MusicFontFile option" where
  "list_slot reg name ty sz =
     (case AbstractMusicFontList_family reg name of
        None \<Rightarrow> None
      | Some F \<Rightarrow> map_of (files F ty) sz)"

definition query_status :: "filesystem \<Rightarrow> string \<times> font_type \<times> string \<Rightarrow> registry \<Rightarrow> registry" where
  "query_status fs q reg =
     (case q of (name, ty, sz) \<Rightarrow>
      case AbstractMusicFontList_family reg name of
        None \<Rightarrow> reg
      | Some F \<Rightarrow> AList.update name (snd (MusicFontFamily_status fs F ty sz)) reg)"

text \<open>The status of a slot of a family of a list, when the list has the family.\<close>

definition list_status ::
  "filesystem \<Rightarrow> registry \<Rightarrow> string \<Rightarrow> font_type \<Rightarrow> string \<Rightarrow> MusicFontStatus option" where
  "list_status fs reg name ty sz =
     map_option (\<lambda>F. slot_status fs F ty sz) (AbstractMusicFontList_family reg name)"

text \<open>The family to which \<open>add_file\<close> adds a file: the one of the list, or a new one.\<close>

definition base_family :: "registry \<Rightarrow> string \<Rightarrow> MusicFontFamily" where
  "base_family reg fam =
     (case map_of reg fam of None \<Rightarrow> MusicFontFamily_empty\<lparr>family := Some fam\<rparr> | Some F \<Rightarrow> F)"

text \<open>
  What a walk writes: the file objects that \<open>add_tree\<close> puts into the slots of a family,
  a later file of the walk replacing an earlier one of the same type and size; and
  whether the walk has a file of the family at all.
\<close>

fun tree_writes :: "filesystem \<Rightarrow> string list \<Rightarrow> string \<Rightarrow> (font_type \<times> string) \<rightharpoonup> MusicFontFile" where
  "tree_writes fs [] name = Map.empty"
| "tree_writes fs (f # found) name =
     (case check_file fs f of
        Inl e \<Rightarrow> tree_writes fs found name
      | Inr (fam, ty, sz) \<Rightarrow>
          if fam = name then [(ty, sz) \<mapsto> MusicFontFile_init f] ++ tree_writes fs found name
          else tree_writes fs found name)"

definition tree_touches :: "filesystem \<Rightarrow> string list \<Rightarrow> string \<Rightarrow> bool" where
  "tree_touches fs found name =
     list_ex (\<lambda>f. case check_file fs f of Inl e \<Rightarrow> False | Inr (fam, ty, sz) \<Rightarrow> fam = name) found"

definition stored_status :: "filesystem \<Rightarrow> MusicFontFile option \<Rightarrow> MusicFontStatus" where
  "stored_status fs slot =
     (case slot of
        None \<Rightarrow> MISSING
      | Some font \<Rightarrow>
          (case status font of None \<Rightarrow> resolve_status fs (font_file font) | Some st \<Rightarrow> st))"

section \<open>Well-formed lists\<close>

text \<open>
  A dictionary has every key once, and every file that \<open>add_file\<close> puts into a list is
  stored under the family, the type and the size that its own name gives.
  \<open>registry_ok\<close> says both of a whole list.
\<close>

definition family_paths :: "MusicFontFamily \<Rightarrow> string list" where
  "family_paths F = map (\<lambda>(ty, sz, font). font_file font) (MusicFontFamily_walk F)"

definition file_table :: "MusicFontFamily \<Rightarrow> font_type \<Rightarrow> (string \<times> string) list" where
  "file_table F ty = map (\<lambda>(sz, font). (sz, font_file font)) (files F ty)"

definition family_ok :: "string \<Rightarrow> MusicFontFamily \<Rightarrow> bool" where
  "family_ok name F =
     list_all (\<lambda>ty. distinct (map fst (file_table F ty)) \<and>
                    list_all (\<lambda>(sz, f). parse_filename f = Some (name, sz, ty)) (file_table F ty))
       all_types"

definition registry_ok :: "registry \<Rightarrow> bool" where
  "registry_ok reg = (distinct (map fst reg) \<and> list_all (\<lambda>(name, F). family_ok name F) reg)"

text \<open>
  A family after its flags were raised: the same files in the same slots, and every flag
  that was set is still set. \<open>list_grows\<close> says so of every family of a list.
\<close>

definition family_grows :: "MusicFontFamily \<Rightarrow> MusicFontFamily \<Rightarrow> bool" where
  "family_grows F F' =
     ((\<forall>ty. file_table F' ty = file_table F ty) \<and>
      (\<forall>ty sz. slot_install F ty sz = Some True \<longrightarrow> slot_install F' ty sz = Some True))"

definition list_grows :: "registry \<Rightarrow> registry \<Rightarrow> bool" where
  "list_grows R R' =
     (map fst R' = map fst R \<and> (\<forall>name. rel_option family_grows (map_of R name) (map_of R' name)))"

section \<open>Example states\<close>

text \<open>
  An installation with a link to a font of a repository, a link whose target is gone and
  a font that is a real file; the repository also holds a font \<open>v\<close> that is not installed.
\<close>

definition example_fs :: filesystem where
  "example_fs =
     \<lparr>nodes = [''/lily/fonts/otf/x-11.otf'' \<mapsto> Symlink ''/repo/x-11.otf'',
                ''/repo/x-11.otf'' \<mapsto> Regular ''OTTO'',
                ''/lily/fonts/otf/x-13.otf'' \<mapsto> Symlink ''/gone/x-13.otf'',
                ''/repo/x-13.otf'' \<mapsto> Regular ''OTTO'',
                ''/repo/x-16.otf'' \<mapsto> Regular ''OTTO'',
                ''/lily/fonts/otf/x-14.otf'' \<mapsto> Regular ''OTTO'',
                ''/lily/fonts/otf/y-11.otf'' \<mapsto> Symlink ''/repo/y-11.otf'',
                ''/repo/y-11.otf'' \<mapsto> Regular ''OTTO'',
                ''/lily/fonts/svg/z-11.svg'' \<mapsto> Regular ''<svg/>'',
                ''/lily/fonts/otf/w-11.otf'' \<mapsto> Symlink ''/repo/w-11.otf'',
                ''/repo/w-11.otf'' \<mapsto> Regular ''OTTO'',
                ''/repo/v-11.otf'' \<mapsto> Regular ''OTTO''],
      refusal = [''/lily/fonts/otf/w-11.otf'' \<mapsto> ''Permission denied''],
      symlinks_supported = True\<rparr>"

definition example_family :: MusicFontFamily where
  "example_family =
     \<lparr>family = Some ''x'',
      files = (\<lambda>ty. [])(Otf :=
        [(''11'', MusicFontFile_init ''/lily/fonts/otf/x-11.otf''),
         (''13'', MusicFontFile_init ''/lily/fonts/otf/x-13.otf''),
         (''14'', MusicFontFile_init ''/lily/fonts/otf/x-14.otf'')])\<rparr>"

text \<open>
  The installed list of that installation: the family \<open>x\<close> of the three fonts above, the
  family \<open>y\<close> of one link, the family \<open>z\<close> of one real file and the family \<open>w\<close> of one
  link that the system refuses to remove.
\<close>

definition one_file_family :: "string \<Rightarrow> font_type \<Rightarrow> string \<Rightarrow> string \<Rightarrow> MusicFontFamily" where
  "one_file_family name ty sz f =
     \<lparr>family = Some name, files = (\<lambda>ty. [])(ty := [(sz, MusicFontFile_init f)])\<rparr>"

definition example_installed :: InstalledMusicFonts where
  "example_installed =
     \<lparr>families =
        [(''x'', example_family),
         (''y'', one_file_family ''y'' Otf ''11'' ''/lily/fonts/otf/y-11.otf''),
         (''z'', one_file_family ''z'' Svg ''11'' ''/lily/fonts/svg/z-11.svg''),
         (''w'', one_file_family ''w'' Otf ''11'' ''/lily/fonts/otf/w-11.otf'')],
      font_root = ''/lily/fonts''\<rparr>"

text \<open>
  The repository: the family \<open>x\<close> in three sizes, the families \<open>y\<close> and \<open>v\<close> in one.
\<close>

definition example_repo_family :: MusicFontFamily where
  "example_repo_family =
     \<lparr>family = Some ''x'',
      files = (\<lambda>ty. [])(Otf :=
        [(''11'', MusicFontFile_init ''/repo/x-11.otf''),
         (''13'', MusicFontFile_init ''/repo/x-13.otf''),
         (''16'', MusicFontFile_init ''/repo/x-16.otf'')])\<rparr>"

definition example_repo :: MusicFontRepo where
  "example_repo =
     \<lparr>families =
        [(''x'', example_repo_family),
         (''y'', one_file_family ''y'' Otf ''11'' ''/repo/y-11.otf''),
         (''v'', one_file_family ''v'' Otf ''11'' ''/repo/v-11.otf'')],
      root = ''/repo'', installable_fonts = []\<rparr>"

text \<open>
  A font directory in which a named pipe and a directory carry the names of fonts.
\<close>

definition pipe_fs :: filesystem where
  "pipe_fs =
     \<lparr>nodes = [''/fonts/otf/foo-11.otf'' \<mapsto> Special, ''/fonts/otf/foo-13.otf'' \<mapsto> Directory],
      refusal = Map.empty, symlinks_supported = True\<rparr>"

text \<open>
  A manager with one document, whose view is tracked under \<^verbatim>\<open>a.ly\<close> of the Git
  repository \<^verbatim>\<open>/repo\<close>; no path is under Mercurial or Subversion.
\<close>

definition example_helpers :: helpers where
  "example_helpers =
     \<lparr>git_extract = (\<lambda>p. if p = ''/repo/a.ly'' then (''/repo'', ''a.ly'')
                          else if p = ''/repo/b.ly'' then (''/repo'', ''b.ly'') else ([], [])),
      hg_extract = (\<lambda>p. ([], [])),
      svn_extract = (\<lambda>p. ([], []))\<rparr>"

definition example_manager :: "(nat, nat) VCSManager" where
  "example_manager =
     \<lparr>doc_view_map = [(1, 7)], git_repo_manager = [((''/repo'', ''a.ly''), 7)]\<rparr>"

section \<open>The file name pattern accepts the font names\<close>

lemma size_ok_cases:
  "size_ok sz \<longleftrightarrow> sz = ''brace'' \<or> (\<exists>d1 d2. sz = [d1, d2] \<and> is_digit d1 \<and> is_digit d2)"
  by (auto simp: size_ok_def split: list.splits)

lemma is_digit_not:
  "\<not> is_digit CHR ''-''" "\<not> is_digit newline" "\<not> is_digit sep" "\<not> is_digit CHR ''b''"
  by (simp_all add: is_digit_def newline_def sep_def)

lemma strip_prefix_iff: "strip_prefix lit r = Some r' \<longleftrightarrow> r = lit @ r'"
  by (induction lit r rule: strip_prefix.induct) auto

lemma strip_prefix_append [simp]: "strip_prefix lit (lit @ r') = Some r'"
  by (simp add: strip_prefix_iff)

lemma literal_Some: "literal lit k r = Some x \<longleftrightarrow> (\<exists>r'. r = lit @ r' \<and> k r' = Some x)"
  by (auto simp: literal_def strip_prefix_iff split: option.splits)

lemma orelse_Some: "orelse a b = Some x \<longleftrightarrow> a = Some x \<or> (a = None \<and> b = Some x)"
  by (cases a) (auto simp: orelse_def)

lemma end_anchor_Some: "end_anchor v r = Some x \<longleftrightarrow> x = v \<and> (r = [] \<or> r = [newline])"
  by (auto simp: end_anchor_def)

lemma two_digits_Some:
  "two_digits k r = Some x \<longleftrightarrow>
     (\<exists>d1 d2 r'. r = d1 # d2 # r' \<and> is_digit d1 \<and> is_digit d2 \<and> k [d1, d2] r' = Some x)"
  by (auto simp: two_digits_def split: list.splits)

lemma type_group_Some:
  "type_group k r = Some x \<longleftrightarrow> (\<exists>ty r'. r = type_name ty @ r' \<and> k ty r' = Some x)"
proof
  assume "type_group k r = Some x"
  then show "\<exists>ty r'. r = type_name ty @ r' \<and> k ty r' = Some x"
    unfolding type_group_def orelse_Some literal_Some
    by (metis type_name.simps)
next
  assume "\<exists>ty r'. r = type_name ty @ r' \<and> k ty r' = Some x"
  then obtain ty r' where r: "r = type_name ty @ r'" and k: "k ty r' = Some x" by blast
  show "type_group k r = Some x"
    using r k by (cases ty) (auto simp: type_group_def orelse_def literal_def split: option.splits)
qed

lemma size_group_Some:
  "size_group k r = Some x \<longleftrightarrow> (\<exists>sz r'. size_ok sz \<and> r = sz @ r' \<and> k sz r' = Some x)"
proof
  assume "size_group k r = Some x"
  then show "\<exists>sz r'. size_ok sz \<and> r = sz @ r' \<and> k sz r' = Some x"
    unfolding size_group_def orelse_Some literal_Some two_digits_Some
  proof (elim disjE conjE exE)
    fix r' assume "r = ''brace'' @ r'" "k ''brace'' r' = Some x"
    then show ?thesis by (intro exI[of _ "''brace''"] exI[of _ r']) (simp add: size_ok_cases)
  next
    fix d1 d2 r' assume "r = d1 # d2 # r'" "is_digit d1" "is_digit d2" "k [d1, d2] r' = Some x"
    then show ?thesis by (intro exI[of _ "[d1, d2]"] exI[of _ r']) (simp add: size_ok_cases)
  qed
next
  assume "\<exists>sz r'. size_ok sz \<and> r = sz @ r' \<and> k sz r' = Some x"
  then obtain sz r' where s: "size_ok sz" and r: "r = sz @ r'" and k: "k sz r' = Some x" by blast
  show "size_group k r = Some x"
  proof (cases "sz = ''brace''")
    case True
    then show ?thesis using r k by (simp add: size_group_def orelse_def literal_def)
  next
    case False
    then obtain d1 d2 where sz: "sz = [d1, d2]" "is_digit d1" "is_digit d2"
      using s by (auto simp: size_ok_cases)
    have "d1 \<noteq> CHR ''b''" using sz(2) is_digit_not(4) by auto
    then show ?thesis using r k sz
      by (simp add: size_group_def orelse_def literal_def two_digits_def)
  qed
qed

lemma after_family_Some:
  "after_family fam r = Some x \<longleftrightarrow>
     (\<exists>sz ty. x = (fam, sz, ty) \<and> size_ok sz \<and>
        (r = ''-'' @ sz @ ''.'' @ type_name ty \<or> r = ''-'' @ sz @ ''.'' @ type_name ty @ [newline]))"
proof
  assume "after_family fam r = Some x"
  then show "\<exists>sz ty. x = (fam, sz, ty) \<and> size_ok sz \<and>
        (r = ''-'' @ sz @ ''.'' @ type_name ty \<or> r = ''-'' @ sz @ ''.'' @ type_name ty @ [newline])"
    unfolding after_family_def literal_Some size_group_Some type_group_Some end_anchor_Some
    by auto
next
  assume "\<exists>sz ty. x = (fam, sz, ty) \<and> size_ok sz \<and>
        (r = ''-'' @ sz @ ''.'' @ type_name ty \<or> r = ''-'' @ sz @ ''.'' @ type_name ty @ [newline])"
  then obtain sz ty where x: "x = (fam, sz, ty)" and s: "size_ok sz"
    and r: "r = ''-'' @ (sz @ (''.'' @ (type_name ty @ []))) \<or> r = ''-'' @ (sz @ (''.'' @ (type_name ty @ [newline])))"
    by auto
  have e: "end_anchor x [] = Some x" "end_anchor x [newline] = Some x"
    by (simp_all add: end_anchor_def)
  show "after_family fam r = Some x"
    unfolding after_family_def literal_Some size_group_Some type_group_Some
    using r s x e by blast
qed


lemma size_ok_no_dash: "size_ok sz \<Longrightarrow> CHR ''-'' \<notin> set sz"
  by (auto simp: size_ok_cases is_digit_not)

lemma size_ok_no_newline: "size_ok sz \<Longrightarrow> newline \<notin> set sz"
  by (auto simp: size_ok_cases is_digit_not) (simp_all add: newline_def)

lemma size_ok_no_sep: "size_ok sz \<Longrightarrow> sep \<notin> set sz"
  by (auto simp: size_ok_cases is_digit_not) (simp_all add: sep_def)

lemma type_name_chars:
  "CHR ''-'' \<notin> set (type_name ty)" "newline \<notin> set (type_name ty)" "sep \<notin> set (type_name ty)"
  by (cases ty; simp add: newline_def sep_def)+

lemma after_family_dash: "after_family fam r = Some x \<Longrightarrow> \<exists>r'. r = CHR ''-'' # r'"
  by (auto simp: after_family_Some)

lemma dot_star_no_dash: "CHR ''-'' \<notin> set r \<Longrightarrow> dot_star fam r = None"
proof (induction r arbitrary: fam)
  case Nil
  have "after_family fam [] = None"
    using after_family_dash[of fam "[]"] by (cases "after_family fam []") auto
  then show ?case by simp
next
  case (Cons c cs)
  have "after_family fam (c # cs) = None"
    using after_family_dash[of fam "c # cs"] Cons.prems by (cases "after_family fam (c # cs)") auto
  then show ?case using Cons by (auto simp: orelse_def)
qed

lemma dot_star_complete:
  assumes "newline \<notin> set pre" and "after_family (fam @ pre) (CHR ''-'' # r) = Some x"
    and "CHR ''-'' \<notin> set r"
  shows "dot_star fam (pre @ CHR ''-'' # r) = Some x"
  using assms
proof (induction pre arbitrary: fam)
  case Nil
  have "CHR ''-'' \<noteq> newline" by (simp add: newline_def)
  then show ?case using Nil by (simp add: dot_star_no_dash orelse_def)
next
  case (Cons c cs)
  have "dot_star (fam @ [c]) (cs @ CHR ''-'' # r) = Some x"
    using Cons.IH[of "fam @ [c]"] Cons.prems by simp
  then show ?case using Cons.prems by (auto simp: orelse_def)
qed

lemma dot_star_sound:
  "dot_star fam r = Some x \<Longrightarrow>
     \<exists>pre suf. r = pre @ suf \<and> newline \<notin> set pre \<and> after_family (fam @ pre) suf = Some x"
proof (induction r arbitrary: fam)
  case Nil
  then show ?case by simp
next
  case (Cons c cs)
  show ?case
  proof (cases "c \<noteq> newline \<and> dot_star (fam @ [c]) cs = Some x")
    case True
    then obtain pre suf where "cs = pre @ suf" "newline \<notin> set pre"
        "after_family ((fam @ [c]) @ pre) suf = Some x"
      using Cons.IH by blast
    then have "c # cs = (c # pre) @ suf \<and> newline \<notin> set (c # pre) \<and> after_family (fam @ c # pre) suf = Some x"
      using True by auto
    then show ?thesis by blast
  next
    case False
    then have "after_family fam (c # cs) = Some x"
      using Cons.prems by (auto simp: orelse_Some split: if_splits)
    then have "c # cs = [] @ (c # cs) \<and> newline \<notin> set [] \<and> after_family (fam @ []) (c # cs) = Some x"
      by simp
    then show ?thesis by blast
  qed
qed

lemma takeWhile_stop: "\<forall>c \<in> set xs. P c \<Longrightarrow> \<not> P y \<Longrightarrow> takeWhile P (xs @ y # ys) = xs"
  by (induction xs) auto

lemma basename_append:
  assumes n: "sep \<notin> set name" and d: "dir = [] \<or> last dir = sep"
  shows "basename (dir @ name) = name"
proof -
  have "takeWhile (\<lambda>c. c \<noteq> sep) (rev name @ rev dir) = rev name"
  proof (cases "dir = []")
    case True
    then show ?thesis using n by (auto simp: takeWhile_eq_all_conv)
  next
    case False
    then obtain d' where d': "dir = d' @ [sep]" using d by (metis append_butlast_last_id)
    have "\<forall>c \<in> set (rev name). c \<noteq> sep" using n by auto
    then show ?thesis unfolding d' by (simp add: takeWhile_stop)
  qed
  then show ?thesis by (simp add: basename_def)
qed

lemma basename_no_sep: "sep \<notin> set (basename p)"
  unfolding basename_def using set_takeWhileD by fastforce

text \<open>
  Claim C7, as amended. \<open>parse_filename\<close> returns the groups (family, size, type) exactly
  when the family holds no newline, the size is two decimal digits or \<^verbatim>\<open>brace\<close>, and
  the basename of the file is \<^verbatim>\<open><family>-<size>.<type>\<close>, alone or followed by one final
  newline; on every other file it returns \<open>None\<close>. So a name built from a family
  without newline and without separator is parsed into the triplet it was built from.
\<close>

theorem parse_filename_iff:
  "parse_filename file = Some (fam, sz, ty) \<longleftrightarrow>
     newline \<notin> set fam \<and> size_ok sz \<and>
     (basename file = built_name fam sz ty \<or> basename file = built_name fam sz ty @ [newline])"
proof
  assume "parse_filename file = Some (fam, sz, ty)"
  then obtain pre suf where b: "basename file = pre @ suf" and n: "newline \<notin> set pre"
    and a: "after_family pre suf = Some (fam, sz, ty)"
    using dot_star_sound[of "[]" "basename file"] by (auto simp: parse_filename_def font_re_match_def)
  from a have "pre = fam \<and> size_ok sz \<and>
      (suf = ''-'' @ sz @ ''.'' @ type_name ty \<or> suf = ''-'' @ sz @ ''.'' @ type_name ty @ [newline])"
    unfolding after_family_Some by blast
  then show "newline \<notin> set fam \<and> size_ok sz \<and>
     (basename file = built_name fam sz ty \<or> basename file = built_name fam sz ty @ [newline])"
    using b n unfolding built_name_def by auto
next
  assume r: "newline \<notin> set fam \<and> size_ok sz \<and>
     (basename file = built_name fam sz ty \<or> basename file = built_name fam sz ty @ [newline])"
  define r' where "r' = drop (Suc (length fam)) (basename file)"
  have b: "basename file = fam @ CHR ''-'' # r'"
    using r unfolding built_name_def r'_def by (elim conjE disjE) simp_all
  have r': "r' = sz @ ''.'' @ type_name ty \<or> r' = sz @ ''.'' @ type_name ty @ [newline]"
    using r unfolding built_name_def r'_def by (elim conjE disjE) simp_all
  have d: "CHR ''-'' \<noteq> newline" "CHR ''-'' \<noteq> CHR ''.''" by (simp_all add: newline_def)
  have nd: "CHR ''-'' \<notin> set r'"
    using r' d size_ok_no_dash[of sz] type_name_chars(1)[of ty] r by (elim disjE) simp_all
  have "\<exists>sz' ty'. (fam, sz, ty) = (fam, sz', ty') \<and> size_ok sz' \<and>
        (CHR ''-'' # r' = ''-'' @ sz' @ ''.'' @ type_name ty' \<or>
         CHR ''-'' # r' = ''-'' @ sz' @ ''.'' @ type_name ty' @ [newline])"
    using r r' by (intro exI[of _ sz] exI[of _ ty]) (elim conjE disjE, simp_all)
  then have "after_family fam (CHR ''-'' # r') = Some (fam, sz, ty)"
    unfolding after_family_Some .
  then have "dot_star [] (fam @ CHR ''-'' # r') = Some (fam, sz, ty)"
    using r nd dot_star_complete[of fam "[]" r' "(fam, sz, ty)"] by simp
  then show "parse_filename file = Some (fam, sz, ty)"
    by (simp add: parse_filename_def font_re_match_def b)
qed


theorem parse_filename_iff_witness:
  "parse_filename ''/fonts/otf/emmentaler-11.otf'' = Some (''emmentaler'', ''11'', Otf)"
proof -
  have "basename ''/fonts/otf/emmentaler-11.otf'' = built_name ''emmentaler'' ''11'' Otf"
    by code_simp
  moreover have "newline \<notin> set ''emmentaler''" "size_ok ''11''"
    by code_simp+
  ultimately show ?thesis
    using parse_filename_iff[of "''/fonts/otf/emmentaler-11.otf''" "''emmentaler''" "''11''" Otf]
    by simp
qed

text \<open>
  Claim C7 as stated fails on names with a newline: the name built from the family
  \<^verbatim>\<open>a\nb\<close> is not matched, since \<^verbatim>\<open>.\<close> does not match a newline, and the basename
  \<^verbatim>\<open>a-11.otf\n\<close>, which is not of the form, is matched, since \<^verbatim>\<open>$\<close> also matches before
  a final newline.
\<close>

theorem parse_filename_newline_counterexample:
  "parse_filename (built_name (''a'' @ [newline] @ ''b'') ''11'' Otf) = None \<and>
   parse_filename (''a-11.otf'' @ [newline]) = Some (''a'', ''11'', Otf)"
  by code_simp

section \<open>The status of a slot\<close>

lemma status_absent:
  "map_of (files F ty) sz = None \<Longrightarrow> MusicFontFamily_status fs F ty sz = (MISSING, F)"
  by (simp add: MusicFontFamily_status_def)

lemma status_fresh:
  "map_of (files F ty) sz = Some font \<Longrightarrow> status font = None \<Longrightarrow>
     fst (MusicFontFamily_status fs F ty sz) = resolve_status fs (font_file font)"
  by (simp add: MusicFontFamily_status_def)

lemma status_stored:
  "map_of (files F ty) sz = Some font \<Longrightarrow> status font = Some st \<Longrightarrow>
     MusicFontFamily_status fs F ty sz = (st, F)"
  by (simp add: MusicFontFamily_status_def)

lemma status_memo:
  "fst (MusicFontFamily_status fs' (snd (MusicFontFamily_status fs F ty sz)) ty sz)
     = fst (MusicFontFamily_status fs F ty sz)"
  by (simp add: MusicFontFamily_status_def AList.update_conv' split: option.splits)

text \<open>
  Claim C6. \<open>status\<close> returns \<open>MISSING\<close> for a slot that is absent. For a slot whose
  file has no stored status it looks at the path: a symbolic link gives \<open>LINK\<close> when
  its target exists and \<open>BROKEN_LINK\<close> when it does not, a path that is no link gives
  \<open>FILE\<close> when it is a regular file and \<open>MISSING_FILE\<close> otherwise. The status is stored:
  a later call returns the same status, whatever the file system has become.
\<close>

theorem status_resolves:
  "(map_of (files F ty) sz = None \<longrightarrow> MusicFontFamily_status fs F ty sz = (MISSING, F)) \<and>
   (\<forall>font. map_of (files F ty) sz = Some font \<and> status font = None \<longrightarrow>
      fst (MusicFontFamily_status fs F ty sz) =
        (if is_symlink fs (font_file font)
         then (if path_exists fs (font_file font) then LINK else BROKEN_LINK)
         else if is_file fs (font_file font) then FILE else MISSING_FILE)) \<and>
   (\<forall>fs'. fst (MusicFontFamily_status fs' (snd (MusicFontFamily_status fs F ty sz)) ty sz)
      = fst (MusicFontFamily_status fs F ty sz))"
  using status_absent status_fresh status_memo by (simp add: resolve_status_def)


theorem status_resolves_witness:
  "fst (MusicFontFamily_status example_fs example_family Otf ''11'') = LINK \<and>
   fst (MusicFontFamily_status example_fs example_family Otf ''13'') = BROKEN_LINK \<and>
   fst (MusicFontFamily_status example_fs example_family Otf ''14'') = FILE \<and>
   MusicFontFamily_status example_fs example_family Otf ''16'' = (MISSING, example_family) \<and>
   fst (MusicFontFamily_status (example_fs\<lparr>nodes := Map.empty\<rparr>)
          (snd (MusicFontFamily_status example_fs example_family Otf ''11'')) Otf ''11'') = LINK"
proof -
  let ?p11 = "''/lily/fonts/otf/x-11.otf''" and ?p13 = "''/lily/fonts/otf/x-13.otf''"
    and ?p14 = "''/lily/fonts/otf/x-14.otf''"
  have slots:
    "map_of (files example_family Otf) ''11'' = Some (MusicFontFile_init ?p11)"
    "map_of (files example_family Otf) ''13'' = Some (MusicFontFile_init ?p13)"
    "map_of (files example_family Otf) ''14'' = Some (MusicFontFile_init ?p14)"
    "map_of (files example_family Otf) ''16'' = None"
    by code_simp+
  have fresh: "status (MusicFontFile_init f) = None" "font_file (MusicFontFile_init f) = f" for f
    by (simp_all add: MusicFontFile_init_def)
  have disk:
    "is_symlink example_fs ?p11" "path_exists example_fs ?p11"
    "is_symlink example_fs ?p13" "\<not> path_exists example_fs ?p13"
    "\<not> is_symlink example_fs ?p14" "is_file example_fs ?p14"
    by code_simp+
  have a: "fst (MusicFontFamily_status example_fs example_family Otf ''11'') = LINK"
    using status_resolves[of example_family Otf "''11''" example_fs] slots fresh disk by simp
  have b: "fst (MusicFontFamily_status example_fs example_family Otf ''13'') = BROKEN_LINK"
    using status_resolves[of example_family Otf "''13''" example_fs] slots fresh disk by simp
  have c: "fst (MusicFontFamily_status example_fs example_family Otf ''14'') = FILE"
    using status_resolves[of example_family Otf "''14''" example_fs] slots fresh disk by simp
  have d: "MusicFontFamily_status example_fs example_family Otf ''16'' = (MISSING, example_family)"
    using status_resolves[of example_family Otf "''16''" example_fs] slots by simp
  have e: "fst (MusicFontFamily_status (example_fs\<lparr>nodes := Map.empty\<rparr>)
          (snd (MusicFontFamily_status example_fs example_family Otf ''11'')) Otf ''11'') = LINK"
    using status_resolves[of example_family Otf "''11''" example_fs] a by simp
  show ?thesis using a b c d e by simp
qed

section \<open>A changed document URL\<close>

text \<open>
  Claim C5 at a document that moves from \<^verbatim>\<open>/repo/a.ly\<close> to \<^verbatim>\<open>/repo/b.ly\<close>, both under the
  Git repository \<^verbatim>\<open>/repo\<close>: the call removes the registration of the old path and
  returns, and the view is not registered under the new path, which the second half
  of the function alone would have done.
\<close>

theorem url_changed_returns_after_untrack:
  "VCSManager_slotDocumentUrlChanged example_helpers example_manager 1 ''/repo/b.ly'' ''/repo/a.ly''
     = (None, example_manager\<lparr>git_repo_manager := []\<rparr>) \<and>
   track_new_url example_helpers (example_manager\<lparr>git_repo_manager := []\<rparr>) 1 ''/repo/b.ly''
     = (None, example_manager\<lparr>git_repo_manager := [((''/repo'', ''b.ly''), 7)]\<rparr>)"
  by (simp add: VCSManager_slotDocumentUrlChanged_def track_new_url_def example_helpers_def
      example_manager_def untrack_document_def track_document_def)

section \<open>Removal of families\<close>

lemma remove_append_raised:
  "fst (InstalledMusicFonts_remove P fs inst xs) \<noteq> None \<Longrightarrow>
     InstalledMusicFonts_remove P fs inst (xs @ ys) = InstalledMusicFonts_remove P fs inst xs"
proof (induction xs arbitrary: fs inst)
  case Nil
  then show ?case by simp
next
  case (Cons x xs)
  then show ?case
    by (auto split: option.splits prod.splits)
qed

lemma remove_append_returned:
  "InstalledMusicFonts_remove P fs inst xs = (None, fs', inst') \<Longrightarrow>
     InstalledMusicFonts_remove P fs inst (xs @ ys) = InstalledMusicFonts_remove P fs' inst' ys"
proof (induction xs arbitrary: fs inst)
  case Nil
  then show ?case by simp
next
  case (Cons x xs)
  then show ?case
    by (auto split: option.splits prod.splits if_splits)
qed

lemma unlink_all_nodes:
  "unlink_all fs ls = (e, fs') \<Longrightarrow> p \<notin> set ls \<Longrightarrow> nodes fs' p = nodes fs p"
proof (induction ls arbitrary: fs)
  case Nil
  then show ?case by simp
next
  case (Cons l ls)
  show ?case
  proof (cases "os_unlink fs l")
    case (Inl m)
    then show ?thesis using Cons.prems by simp
  next
    case (Inr fs1)
    then have "nodes fs1 p = nodes fs p"
      using Cons.prems(2) by (auto simp: os_unlink_def split: option.splits)
    moreover have "nodes fs' p = nodes fs1 p"
      using Cons.IH[of fs1] Cons.prems Inr by simp
    ultimately show ?thesis by simp
  qed
qed

lemma is_symlink_cong: "nodes fs' p = nodes fs p \<Longrightarrow> is_symlink fs' p = is_symlink fs p"
  by (simp add: is_symlink_def)

lemma family_real_files_cong:
  assumes "\<forall>p \<in> set (family_paths F). nodes fs' p = nodes fs p"
  shows "family_real_files fs' F = family_real_files fs F"
proof -
  have "filter (\<lambda>(ty, sz, font). \<not> is_symlink fs' (font_file font)) (MusicFontFamily_walk F)
      = filter (\<lambda>(ty, sz, font). \<not> is_symlink fs (font_file font)) (MusicFontFamily_walk F)"
    using assms by (intro filter_cong) (auto simp: family_paths_def is_symlink_def)
  then show ?thesis by (simp add: family_real_files_def)
qed

lemma family_links_subset: "set (family_links fs F) \<subseteq> set (family_paths F)"
  by (force simp: family_links_def family_paths_def)

lemma all_types_all: "ty \<in> set all_types"
  by (cases ty) (simp_all add: all_types_def)

lemma family_paths_table:
  "p \<in> set (family_paths F) \<longleftrightarrow> (\<exists>ty sz. (sz, p) \<in> set (file_table F ty))"
  by (force simp: family_paths_def MusicFontFamily_walk_def file_table_def all_types_all)

lemma family_ok_parse:
  "family_ok n F \<Longrightarrow> (sz, p) \<in> set (file_table F ty) \<Longrightarrow> parse_filename p = Some (n, sz, ty)"
  using all_types_all[of ty] by (auto simp: family_ok_def list_all_iff)

lemma registry_ok_family: "registry_ok reg \<Longrightarrow> map_of reg n = Some F \<Longrightarrow> family_ok n F"
  by (auto simp: registry_ok_def list_all_iff dest!: map_of_SomeD)

lemma registry_ok_lookup:
  assumes "registry_ok reg" "map_of reg n = Some F" "p \<in> set (family_paths F)"
  shows "\<exists>sz ty. parse_filename p = Some (n, sz, ty)"
proof -
  obtain ty sz where "(sz, p) \<in> set (file_table F ty)"
    using assms(3) by (auto simp: family_paths_table)
  then show ?thesis using family_ok_parse registry_ok_family[OF assms(1,2)] by blast
qed

lemma registry_ok_delete: "registry_ok reg \<Longrightarrow> registry_ok (AList.delete m reg)"
  by (auto simp: registry_ok_def list_all_iff AList.delete_eq distinct_map_filter)

lemma registry_ok_disjoint:
  assumes "registry_ok reg" "map_of reg n = Some F" "map_of reg m = Some G" "m \<noteq> n"
    and "p \<in> set (family_paths F)"
  shows "p \<notin> set (family_paths G)"
proof
  assume "p \<in> set (family_paths G)"
  then have "\<exists>sz ty. parse_filename p = Some (m, sz, ty)"
    using assms(1,3) registry_ok_lookup by blast
  moreover have "\<exists>sz ty. parse_filename p = Some (n, sz, ty)"
    using assms(1,2,5) registry_ok_lookup by blast
  ultimately show False using assms(4) by auto
qed

lemma remove_keeps_refused_family:
  assumes "registry_ok (families inst)" "map_of (families inst) n = Some F"
    and "family_real_files fs F \<noteq> []"
    and "InstalledMusicFonts_remove P fs inst xs = (e, fs', inst')"
  shows "(\<forall>p \<in> set (family_paths F). nodes fs' p = nodes fs p) \<and> map_of (families inst') n = Some F"
  using assms
proof (induction xs arbitrary: fs inst)
  case Nil
  then show ?case by simp
next
  case (Cons m xs)
  show ?case
  proof (cases "map_of (families inst) m")
    case None
    then show ?thesis using Cons.prems by (simp add: AbstractMusicFontList_family_def)
  next
    case (Some G)
    show ?thesis
    proof (cases "family_real_files fs G \<noteq> []")
      case True
      then show ?thesis using Cons.prems Some by (simp add: AbstractMusicFontList_family_def)
    next
      case False
      then have mn: "m \<noteq> n" using Cons.prems(2,3) Some by auto
      obtain u fs1 where u: "unlink_all fs (family_links fs G) = (u, fs1)"
        by (cases "unlink_all fs (family_links fs G)")
      have same: "\<forall>p \<in> set (family_paths F). nodes fs1 p = nodes fs p"
      proof
        fix p assume p: "p \<in> set (family_paths F)"
        then have "p \<notin> set (family_paths G)"
          using registry_ok_disjoint[OF Cons.prems(1) Cons.prems(2) Some mn] by simp
        then have "p \<notin> set (family_links fs G)" using family_links_subset by blast
        then show "nodes fs1 p = nodes fs p" using unlink_all_nodes[OF u] by simp
      qed
      show ?thesis
      proof (cases u)
        case (Some msg)
        then show ?thesis
          using Cons.prems \<open>map_of (families inst) m = Some G\<close> False u same
          by (simp add: AbstractMusicFontList_family_def)
      next
        case None
        let ?inst1 = "inst\<lparr>families := AList.delete m (families inst)\<rparr>"
        have r: "InstalledMusicFonts_remove P fs1 ?inst1 xs = (e, fs', inst')"
          using Cons.prems \<open>map_of (families inst) m = Some G\<close> False u None
          by (simp add: AbstractMusicFontList_family_def)
        have "registry_ok (families ?inst1)" using Cons.prems(1) by (simp add: registry_ok_delete)
        moreover have "map_of (families ?inst1) n = Some F"
          using Cons.prems(2) mn by (simp add: AList.delete_conv')
        moreover have "family_real_files fs1 F \<noteq> []"
          using family_real_files_cong[OF same] Cons.prems(3) by simp
        ultimately have "(\<forall>p \<in> set (family_paths F). nodes fs' p = nodes fs1 p)
            \<and> map_of (families inst') n = Some F"
          using Cons.IH[of ?inst1 fs1] r by blast
        then show ?thesis using same by simp
      qed
    qed
  qed
qed

lemma remove_raises_if_member:
  assumes "registry_ok (families inst)" "map_of (families inst) n = Some F"
    and "family_real_files fs F \<noteq> []" and "n \<in> set xs"
  shows "fst (InstalledMusicFonts_remove P fs inst xs) \<noteq> None"
proof -
  obtain ys zs where xs: "xs = ys @ n # zs" using assms(4) by (meson split_list)
  show ?thesis
  proof (cases "fst (InstalledMusicFonts_remove P fs inst ys)")
    case (Some a)
    then show ?thesis using remove_append_raised[of P fs inst ys "n # zs"] xs by simp
  next
    case None
    then obtain fs1 inst1 where r: "InstalledMusicFonts_remove P fs inst ys = (None, fs1, inst1)"
      by (cases "InstalledMusicFonts_remove P fs inst ys") auto
    have k: "(\<forall>p \<in> set (family_paths F). nodes fs1 p = nodes fs p) \<and> map_of (families inst1) n = Some F"
      using remove_keeps_refused_family[OF assms(1-3) r] .
    then have "family_real_files fs1 F \<noteq> []"
      using family_real_files_cong[of F fs1 fs] assms(3) by simp
    then show ?thesis
      using remove_append_returned[OF r, of "n # zs"] xs k
      by (simp add: AbstractMusicFontList_family_def)
  qed
qed


text \<open>
  Claim C1, as amended. Let the family \<open>n\<close> of a well-formed list hold at least one file
  that is no symbolic link. When the loop of \<open>remove\<close> reaches \<open>n\<close>, every earlier name of
  the batch having been removed without an exception, the call raises
  \<open>MusicFontFileRemoveException\<close> and the message is exactly the paths of that family
  that are no links, as \<^verbatim>\<open>pathlib\<close> prints them, one per line and in the order of the walk.
  On every batch the call unlinks no file of that family, leaves its entry in the list
  as it was, and, when \<open>n\<close> is in the batch, ends with an exception.
\<close>

theorem remove_refuses_real_files:
  assumes "registry_ok (families inst)"
    and "AbstractMusicFontList_family (families inst) n = Some F"
    and "family_real_files fs F \<noteq> []"
  shows "(fst (InstalledMusicFonts_remove P fs inst pre) = None \<longrightarrow>
            fst (InstalledMusicFonts_remove P fs inst (pre @ n # post))
              = Some (MusicFontFileRemoveException (join_lines (map P (family_real_files fs F))))) \<and>
         (\<forall>p \<in> set (family_paths F).
            nodes (fst (snd (InstalledMusicFonts_remove P fs inst batch))) p = nodes fs p) \<and>
         AbstractMusicFontList_family
            (families (snd (snd (InstalledMusicFonts_remove P fs inst batch)))) n = Some F \<and>
         (n \<in> set batch \<longrightarrow> fst (InstalledMusicFonts_remove P fs inst batch) \<noteq> None)"
proof -
  have look: "map_of (families inst) n = Some F"
    using assms(2) by (simp add: AbstractMusicFontList_family_def)
  have reached: "fst (InstalledMusicFonts_remove P fs inst (pre @ n # post))
      = Some (MusicFontFileRemoveException (join_lines (map P (family_real_files fs F))))"
    if h: "fst (InstalledMusicFonts_remove P fs inst pre) = None"
  proof -
    obtain fs1 inst1 where r: "InstalledMusicFonts_remove P fs inst pre = (None, fs1, inst1)"
      using h by (cases "InstalledMusicFonts_remove P fs inst pre") auto
    have k: "(\<forall>p \<in> set (family_paths F). nodes fs1 p = nodes fs p) \<and> map_of (families inst1) n = Some F"
      using remove_keeps_refused_family[OF assms(1) look assms(3) r] .
    then have "family_real_files fs1 F = family_real_files fs F"
      using family_real_files_cong[of F fs1 fs] by simp
    then show ?thesis
      using remove_append_returned[OF r, of "n # post"] k assms(3)
      by (simp add: AbstractMusicFontList_family_def)
  qed
  obtain e fs' inst' where b: "InstalledMusicFonts_remove P fs inst batch = (e, fs', inst')"
    by (cases "InstalledMusicFonts_remove P fs inst batch")
  have kept: "(\<forall>p \<in> set (family_paths F). nodes fs' p = nodes fs p) \<and> map_of (families inst') n = Some F"
    using remove_keeps_refused_family[OF assms(1) look assms(3) b] .
  have raised: "fst (InstalledMusicFonts_remove P fs inst batch) \<noteq> None" if "n \<in> set batch"
    using remove_raises_if_member[OF assms(1) look assms(3) that] .
  show ?thesis using reached kept raised b by (simp add: AbstractMusicFontList_family_def)
qed

theorem remove_refuses_real_files_witness:
  "registry_ok (families example_installed) \<and>
   family_real_files example_fs (one_file_family ''z'' Svg ''11'' ''/lily/fonts/svg/z-11.svg'')
     = [''/lily/fonts/svg/z-11.svg''] \<and>
   fst (InstalledMusicFonts_remove (\<lambda>p. p) example_fs example_installed [''y'']) = None \<and>
   fst (InstalledMusicFonts_remove (\<lambda>p. p) example_fs example_installed [''y'', ''z'', ''x''])
     = Some (MusicFontFileRemoveException ''/lily/fonts/svg/z-11.svg'') \<and>
   nodes (fst (snd (InstalledMusicFonts_remove (\<lambda>p. p) example_fs example_installed [''y'', ''z''])))
       ''/lily/fonts/svg/z-11.svg'' = Some (Regular ''<svg/>'') \<and>
   AbstractMusicFontList_family
     (families (snd (snd (InstalledMusicFonts_remove (\<lambda>p. p) example_fs example_installed [''y'', ''z'']))))
     ''z'' = Some (one_file_family ''z'' Svg ''11'' ''/lily/fonts/svg/z-11.svg'')"
proof -
  let ?F = "one_file_family ''z'' Svg ''11'' ''/lily/fonts/svg/z-11.svg''"
  have ok: "registry_ok (families example_installed)" by code_simp
  have fam: "AbstractMusicFontList_family (families example_installed) ''z'' = Some ?F"
    by (simp add: AbstractMusicFontList_family_def example_installed_def)
  have real: "family_real_files example_fs ?F = [''/lily/fonts/svg/z-11.svg'']" by code_simp
  then have real': "family_real_files example_fs ?F \<noteq> []" by simp
  have pre: "fst (InstalledMusicFonts_remove (\<lambda>p. p) example_fs example_installed [''y'']) = None"
    by code_simp
  have paths: "''/lily/fonts/svg/z-11.svg'' \<in> set (family_paths ?F)" by code_simp
  have disk: "nodes example_fs ''/lily/fonts/svg/z-11.svg'' = Some (Regular ''<svg/>'')" by code_simp
  note t = remove_refuses_real_files[OF ok fam real', of "\<lambda>p. p" "[''y'']" "[''x'']" "[''y'', ''z'']"]
  show ?thesis using t ok real pre paths disk by simp
qed

text \<open>
  Claim C1 as stated fails for a family that is not the first of the batch to stop the
  call. The family \<open>z\<close> holds a real file, but after \<open>x\<close> the message lists the file of
  \<open>x\<close>, and after \<open>w\<close>, whose link cannot be removed, the exception is a
  \<open>MusicFontPermissionException\<close>.
\<close>

theorem remove_second_refusal_counterexample:
  "family_real_files example_fs (one_file_family ''z'' Svg ''11'' ''/lily/fonts/svg/z-11.svg'')
     = [''/lily/fonts/svg/z-11.svg''] \<and>
   fst (InstalledMusicFonts_remove (\<lambda>p. p) example_fs example_installed [''x'', ''z''])
     = Some (MusicFontFileRemoveException ''/lily/fonts/otf/x-14.otf'') \<and>
   fst (InstalledMusicFonts_remove (\<lambda>p. p) example_fs example_installed [''w'', ''z''])
     = Some (MusicFontPermissionException (''Font removal failed:'' @ [newline] @ ''Permission denied''))"
  by code_simp

text \<open>
  Claim C2, as amended. A refusal ends the call: the names that follow the refused family
  in the batch have no effect on the outcome, so no file of theirs is unlinked and none
  of them leaves the list.
\<close>

theorem remove_stops_at_refusal:
  assumes "fst (InstalledMusicFonts_remove P fs inst (pre @ [n])) = Some (MusicFontFileRemoveException msg)"
  shows "InstalledMusicFonts_remove P fs inst (pre @ n # post)
           = InstalledMusicFonts_remove P fs inst (pre @ [n])"
proof -
  have "InstalledMusicFonts_remove P fs inst ((pre @ [n]) @ post)
          = InstalledMusicFonts_remove P fs inst (pre @ [n])"
    using assms by (intro remove_append_raised) simp
  then show ?thesis by simp
qed

theorem remove_stops_at_refusal_witness:
  "fst (InstalledMusicFonts_remove (\<lambda>p. p) example_fs example_installed [''y'', ''z''])
     = Some (MusicFontFileRemoveException ''/lily/fonts/svg/z-11.svg'') \<and>
   InstalledMusicFonts_remove (\<lambda>p. p) example_fs example_installed [''y'', ''z'', ''x'']
     = InstalledMusicFonts_remove (\<lambda>p. p) example_fs example_installed [''y'', ''z'']"
proof -
  have h: "fst (InstalledMusicFonts_remove (\<lambda>p. p) example_fs example_installed ([''y''] @ [''z'']))
     = Some (MusicFontFileRemoveException ''/lily/fonts/svg/z-11.svg'')"
    by code_simp
  show ?thesis using remove_stops_at_refusal[OF h, of "[''x'']"] h by simp
qed

text \<open>
  Claim C2 as stated fails: after the refusal of \<open>z\<close> the family \<open>y\<close>, which consists of
  one link and is removed when it is asked for alone, keeps its link and its entry.
\<close>

theorem remove_later_family_counterexample:
  "fst (InstalledMusicFonts_remove (\<lambda>p. p) example_fs example_installed [''z'', ''y''])
     = Some (MusicFontFileRemoveException ''/lily/fonts/svg/z-11.svg'') \<and>
   nodes (fst (snd (InstalledMusicFonts_remove (\<lambda>p. p) example_fs example_installed [''z'', ''y''])))
     ''/lily/fonts/otf/y-11.otf'' = Some (Symlink ''/repo/y-11.otf'') \<and>
   AbstractMusicFontList_families
     (families (snd (snd (InstalledMusicFonts_remove (\<lambda>p. p) example_fs example_installed [''z'', ''y'']))))
     = [''w'', ''x'', ''y'', ''z''] \<and>
   fst (InstalledMusicFonts_remove (\<lambda>p. p) example_fs example_installed [''y'']) = None \<and>
   nodes (fst (snd (InstalledMusicFonts_remove (\<lambda>p. p) example_fs example_installed [''y''])))
     ''/lily/fonts/otf/y-11.otf'' = None \<and>
   AbstractMusicFontList_families
     (families (snd (snd (InstalledMusicFonts_remove (\<lambda>p. p) example_fs example_installed [''y'']))))
     = [''w'', ''x'', ''z'']"
  by code_simp

section \<open>Installation of a font file\<close>

lemma add_slot: "map_of (files (MusicFontFamily_add F ty sz f) ty) sz = Some (MusicFontFile_init f)"
  by (simp add: MusicFontFamily_add_def AList.update_conv')

lemma add_same:
  "map_of (files F ty) sz = Some (MusicFontFile_init f) \<Longrightarrow> MusicFontFamily_add F ty sz f = F"
  by (simp add: MusicFontFamily_add_def AList.update_triv)

lemma family_add_file_slot:
  "MusicFontFamily_add_file fs F f = Inr F' \<Longrightarrow> check_file fs f = Inr (fam, ty, sz) \<Longrightarrow>
     map_of (files F' ty) sz = Some (MusicFontFile_init f)"
  by (auto simp: MusicFontFamily_add_file_def add_slot split: option.splits if_splits)

lemma add_file_check:
  "AbstractMusicFontList_add_file fs reg f = Inr reg' \<Longrightarrow> \<exists>fam ty sz. check_file fs f = Inr (fam, ty, sz)"
  by (cases "check_file fs f") (auto simp: AbstractMusicFontList_add_file_def)

lemma check_file_exists: "check_file fs f = Inr k \<Longrightarrow> path_exists fs f"
  by (auto simp: check_file_def split: if_splits)

lemma check_file_parse:
  "check_file fs f = Inr (fam, ty, sz) \<Longrightarrow> parse_filename f = Some (fam, sz, ty)"
  by (auto simp: check_file_def split: if_splits option.splits)

lemma check_file_nonempty: "check_file fs f = Inr k \<Longrightarrow> f \<noteq> []"
  by (auto simp: check_file_def parse_filename_def basename_def font_re_match_def after_family_def
      literal_def split: if_splits option.splits)

lemma add_file_registers:
  assumes "AbstractMusicFontList_add_file fs reg f = Inr reg'" "check_file fs f = Inr (fam, ty, sz)"
  shows "\<exists>F. map_of reg' fam = Some F \<and> map_of (files F ty) sz = Some (MusicFontFile_init f)"
proof (cases "map_of reg fam")
  case None
  then obtain F where F: "MusicFontFamily_init fs (Some f) = Inr F" and r: "reg' = AList.update fam F reg"
    using assms by (auto simp: AbstractMusicFontList_add_file_def split: sum.splits)
  have "f \<noteq> []" using assms(2) by (rule check_file_nonempty)
  then have "MusicFontFamily_add_file fs MusicFontFamily_empty f = Inr F"
    using F by (simp add: MusicFontFamily_init_def)
  then have "map_of (files F ty) sz = Some (MusicFontFile_init f)"
    using assms(2) by (rule family_add_file_slot)
  then show ?thesis using r by (simp add: AList.update_conv')
next
  case (Some G)
  then have "reg' = AList.update fam (MusicFontFamily_add G ty sz f) reg"
    using assms by (auto simp: AbstractMusicFontList_add_file_def)
  then show ?thesis by (simp add: AList.update_conv' add_slot)
qed

lemma add_file_twice:
  assumes "AbstractMusicFontList_add_file fs reg f = Inr reg'"
  shows "AbstractMusicFontList_add_file fs reg' f = Inr reg'"
proof -
  obtain fam ty sz where c: "check_file fs f = Inr (fam, ty, sz)"
    using add_file_check[OF assms] by blast
  obtain F where F: "map_of reg' fam = Some F" "map_of (files F ty) sz = Some (MusicFontFile_init f)"
    using add_file_registers[OF assms c] by blast
  have "AList.update fam (MusicFontFamily_add F ty sz f) reg' = reg'"
    using F by (simp add: add_same AList.update_triv)
  then show ?thesis using c F by (simp add: AbstractMusicFontList_add_file_def)
qed

lemma register_target_twice:
  "register_target fs inst t = (None, fs', inst') \<Longrightarrow> register_target fs' inst' t = (None, fs', inst')"
  by (auto simp: register_target_def add_file_twice split: sum.splits)

lemma install_copy:
  "InstalledMusicFonts_install fs inst ty f True =
     (case copyfile fs f (install_target inst ty f) of
        Inl e \<Rightarrow> (Some (install_failed e), fs, inst)
      | Inr fs' \<Rightarrow> register_target fs' inst (install_target inst ty f))"
  by simp

lemma install_fallback:
  assumes "\<not> symlinks_supported fs"
  shows "InstalledMusicFonts_install fs inst ty f False = InstalledMusicFonts_install fs inst ty f True"
proof -
  obtain e fs' inst' where r: "InstalledMusicFonts_install fs inst ty f True = (e, fs', inst')"
    by (cases "InstalledMusicFonts_install fs inst ty f True")
  have s: "os_symlink fs f (install_target inst ty f) = Inl NotImplementedError"
    using assms by (simp add: os_symlink_def)
  show ?thesis
  proof (cases e)
    case (Some x)
    then show ?thesis using r s by (subst InstalledMusicFonts_install.simps) simp
  next
    case None
    then have "register_target fs' inst' (install_target inst ty f) = (None, fs', inst')"
      using r by (auto simp: register_target_twice split: sum.splits)
    then show ?thesis using r s None by (subst InstalledMusicFonts_install.simps) simp
  qed
qed

lemma register_target_registers:
  assumes "register_target fs inst t = (None, fs', inst')"
  shows "fs' = fs \<and> path_exists fs t \<and>
     (\<exists>fam sz ty F. parse_filename t = Some (fam, sz, ty) \<and> map_of (families inst') fam = Some F \<and>
         map_of (files F ty) sz = Some (MusicFontFile_init t))"
proof -
  obtain reg where a: "AbstractMusicFontList_add_file fs (families inst) t = Inr reg"
    and i: "inst' = inst\<lparr>families := reg\<rparr>" "fs' = fs"
    using assms by (auto simp: register_target_def split: sum.splits)
  obtain fam ty sz where c: "check_file fs t = Inr (fam, ty, sz)"
    using add_file_check[OF a] by blast
  show ?thesis
    using add_file_registers[OF a c] check_file_exists[OF c] check_file_parse[OF c] i by auto
qed

lemma install_registers:
  assumes "InstalledMusicFonts_install fs inst ty f copy = (None, fs', inst')"
  shows "path_exists fs' (install_target inst ty f) \<and>
     (\<exists>fam sz ty' F. parse_filename (install_target inst ty f) = Some (fam, sz, ty') \<and>
         map_of (families inst') fam = Some F \<and>
         map_of (files F ty') sz = Some (MusicFontFile_init (install_target inst ty f)))"
proof -
  have "\<exists>fs0 inst0. register_target fs0 inst0 (install_target inst ty f) = (None, fs', inst')"
  proof (cases copy)
    case True
    then show ?thesis using assms by (auto split: sum.splits)
  next
    case False
    show ?thesis
    proof (cases "os_symlink fs f (install_target inst ty f)")
      case (Inr fs1)
      then show ?thesis using assms False by (subst (asm) InstalledMusicFonts_install.simps) auto
    next
      case (Inl x)
      show ?thesis
      proof (cases x)
        case NotImplementedError
        then show ?thesis
          using assms False Inl
          by (subst (asm) InstalledMusicFonts_install.simps)
             (auto split: sum.splits prod.splits option.splits)
      next
        case (OSError m)
        then show ?thesis using assms False Inl by (subst (asm) InstalledMusicFonts_install.simps) simp
      qed
    qed
  qed
  then show ?thesis using register_target_registers by blast
qed


lemma follow_self: "\<not> is_symlink fs p \<Longrightarrow> follow k fs p = Some p"
  by (cases k) (auto simp: is_symlink_def split: option.splits node.splits)

lemma stat_self: "\<not> is_symlink fs p \<Longrightarrow> stat fs p = nodes fs p"
  by (simp add: stat_def follow_self)

lemma follow_not_link: "follow k fs p = Some q \<Longrightarrow> \<forall>t. nodes fs q \<noteq> Some (Symlink t)"
proof (induction k arbitrary: p)
  case 0
  then show ?case by (auto split: option.splits node.splits)
next
  case (Suc k)
  then show ?case by (auto split: option.splits node.splits)
qed

lemma follow_write:
  assumes "\<forall>t. nodes fs d \<noteq> Some (Symlink t)"
  shows "follow k (fs\<lparr>nodes := (nodes fs)(d := Some (Regular b))\<rparr>) p = follow k fs p"
proof (induction k arbitrary: p)
  case 0
  then show ?case using assms by (auto split: option.splits node.splits)
next
  case (Suc k)
  then show ?case using assms by (auto split: option.splits node.splits)
qed

lemma copyfile_bytes:
  assumes "copyfile fs src dst = Inr fs'"
  shows "\<exists>bytes. stat fs src = Some (Regular bytes) \<and> stat fs' dst = Some (Regular bytes)"
proof -
  obtain s bytes d where s: "follow symloop_max fs src = Some s" "nodes fs s = Some (Regular bytes)"
    and d: "follow symloop_max fs dst = Some d"
    and w: "fs' = fs\<lparr>nodes := (nodes fs)(d := Some (Regular bytes))\<rparr>"
    using assms by (auto simp: copyfile_def split: option.splits node.splits if_splits)
  have "follow symloop_max fs' dst = Some d"
    unfolding w using follow_write[OF follow_not_link[OF d]] d by simp
  then have "stat fs' dst = Some (Regular bytes)" by (simp add: stat_def w)
  then show ?thesis using s by (simp add: stat_def)
qed

lemma os_symlink_creates: "os_symlink fs src dst = Inr fs' \<Longrightarrow> nodes fs' dst = Some (Symlink src)"
  by (auto simp: os_symlink_def split: if_splits option.splits)

text \<open>
  Claim C3. With \<^verbatim>\<open>copy=False\<close>, \<open>install\<close> asks the host for a symbolic link at the target
  path, and where the host creates it the link points to the source and the target is
  then registered. On a host without symbolic links the call is the call with
  \<^verbatim>\<open>copy=True\<close>, which writes the bytes of the source to the target. Any other error of
  the operating system, on the link or on the copy, is raised as a
  \<open>MusicFontPermissionException\<close> whose message ends with the text of that error, and
  leaves the file system and the list as they were. Whenever the call returns, the
  target exists and is the file of the slot that its name gives.
\<close>

theorem install_links_or_copies:
  "(\<forall>fs'. os_symlink fs f (install_target inst ty f) = Inr fs' \<longrightarrow>
      nodes fs' (install_target inst ty f) = Some (Symlink f) \<and>
      InstalledMusicFonts_install fs inst ty f False = register_target fs' inst (install_target inst ty f)) \<and>
   (\<not> symlinks_supported fs \<longrightarrow>
      InstalledMusicFonts_install fs inst ty f False = InstalledMusicFonts_install fs inst ty f True) \<and>
   (\<forall>fs'. copyfile fs f (install_target inst ty f) = Inr fs' \<longrightarrow>
      (\<exists>bytes. stat fs f = Some (Regular bytes) \<and>
               stat fs' (install_target inst ty f) = Some (Regular bytes)) \<and>
      InstalledMusicFonts_install fs inst ty f True = register_target fs' inst (install_target inst ty f)) \<and>
   (\<forall>e. os_symlink fs f (install_target inst ty f) = Inl (OSError e) \<longrightarrow>
      InstalledMusicFonts_install fs inst ty f False =
        (Some (MusicFontPermissionException (''Font installation failed:'' @ [newline] @ e)), fs, inst)) \<and>
   (\<forall>e. copyfile fs f (install_target inst ty f) = Inl e \<longrightarrow>
      InstalledMusicFonts_install fs inst ty f True =
        (Some (MusicFontPermissionException (''Font installation failed:'' @ [newline] @ e)), fs, inst)) \<and>
   (\<forall>fs' inst'. InstalledMusicFonts_install fs inst ty f copy = (None, fs', inst') \<longrightarrow>
      path_exists fs' (install_target inst ty f) \<and>
      (\<exists>fam sz ty' F. parse_filename (install_target inst ty f) = Some (fam, sz, ty') \<and>
         AbstractMusicFontList_family (families inst') fam = Some F \<and>
         map_of (files F ty') sz = Some (MusicFontFile_init (install_target inst ty f))))"
proof (intro conjI allI impI)
  fix fs' assume "os_symlink fs f (install_target inst ty f) = Inr fs'"
  then show "nodes fs' (install_target inst ty f) = Some (Symlink f)"
    and "InstalledMusicFonts_install fs inst ty f False = register_target fs' inst (install_target inst ty f)"
    by (simp_all add: os_symlink_creates)
next
  assume "\<not> symlinks_supported fs"
  then show "InstalledMusicFonts_install fs inst ty f False = InstalledMusicFonts_install fs inst ty f True"
    by (rule install_fallback)
next
  fix fs' assume c: "copyfile fs f (install_target inst ty f) = Inr fs'"
  then show "\<exists>bytes. stat fs f = Some (Regular bytes) \<and>
               stat fs' (install_target inst ty f) = Some (Regular bytes)"
    by (rule copyfile_bytes)
  show "InstalledMusicFonts_install fs inst ty f True = register_target fs' inst (install_target inst ty f)"
    using c by simp
next
  fix e assume "os_symlink fs f (install_target inst ty f) = Inl (OSError e)"
  then show "InstalledMusicFonts_install fs inst ty f False =
        (Some (MusicFontPermissionException (''Font installation failed:'' @ [newline] @ e)), fs, inst)"
    by (simp add: install_failed_def)
next
  fix e assume "copyfile fs f (install_target inst ty f) = Inl e"
  then show "InstalledMusicFonts_install fs inst ty f True =
        (Some (MusicFontPermissionException (''Font installation failed:'' @ [newline] @ e)), fs, inst)"
    by (simp add: install_failed_def)
next
  fix fs' inst' assume r: "InstalledMusicFonts_install fs inst ty f copy = (None, fs', inst')"
  show "path_exists fs' (install_target inst ty f)"
    using install_registers[OF r] by blast
  show "\<exists>fam sz ty' F. parse_filename (install_target inst ty f) = Some (fam, sz, ty') \<and>
         AbstractMusicFontList_family (families inst') fam = Some F \<and>
         map_of (files F ty') sz = Some (MusicFontFile_init (install_target inst ty f))"
    using install_registers[OF r] by (simp add: AbstractMusicFontList_family_def)
qed


theorem install_links_or_copies_witness:
  "InstalledMusicFonts_install example_fs example_installed Otf ''/repo/v-11.otf'' False
     = register_target
         (example_fs\<lparr>nodes := (nodes example_fs)(''/lily/fonts/otf/v-11.otf'' \<mapsto> Symlink ''/repo/v-11.otf'')\<rparr>)
         example_installed ''/lily/fonts/otf/v-11.otf'' \<and>
   fst (InstalledMusicFonts_install example_fs example_installed Otf ''/repo/v-11.otf'' False) = None \<and>
   path_exists (fst (snd (InstalledMusicFonts_install example_fs example_installed Otf ''/repo/v-11.otf'' False)))
     ''/lily/fonts/otf/v-11.otf'' \<and>
   InstalledMusicFonts_install (example_fs\<lparr>symlinks_supported := False\<rparr>) example_installed Otf
       ''/repo/v-11.otf'' False
     = InstalledMusicFonts_install (example_fs\<lparr>symlinks_supported := False\<rparr>) example_installed Otf
         ''/repo/v-11.otf'' True \<and>
   InstalledMusicFonts_install (example_fs\<lparr>symlinks_supported := False\<rparr>) example_installed Otf
       ''/repo/v-11.otf'' True
     = register_target
         (example_fs\<lparr>symlinks_supported := False,
            nodes := (nodes example_fs)(''/lily/fonts/otf/v-11.otf'' \<mapsto> Regular ''OTTO'')\<rparr>)
         example_installed ''/lily/fonts/otf/v-11.otf'' \<and>
   InstalledMusicFonts_install example_fs example_installed Otf ''/repo/y-11.otf'' False
     = (Some (MusicFontPermissionException (''Font installation failed:'' @ [newline] @ ''File exists'')),
        example_fs, example_installed) \<and>
   InstalledMusicFonts_install example_fs example_installed Otf ''/gone/x-13.otf'' True
     = (Some (MusicFontPermissionException
                (''Font installation failed:'' @ [newline] @ ''No such file or directory'')),
        example_fs, example_installed)"
proof -
  let ?v = "''/repo/v-11.otf''" and ?tv = "''/lily/fonts/otf/v-11.otf''"
  let ?y = "''/repo/y-11.otf''" and ?ty = "''/lily/fonts/otf/y-11.otf''"
  let ?g = "''/gone/x-13.otf''" and ?tg = "''/lily/fonts/otf/x-13.otf''"
  let ?nosym = "example_fs\<lparr>symlinks_supported := False\<rparr>"
  have tv: "install_target example_installed Otf ?v = ?tv"
    and ty: "install_target example_installed Otf ?y = ?ty"
    and tg: "install_target example_installed Otf ?g = ?tg"
    by code_simp+
  have free: "refusal example_fs ?tv = None" "nodes example_fs ?tv = None"
    "refusal example_fs ?ty = None" "nodes example_fs ?ty = Some (Symlink ?y)"
    "symlinks_supported example_fs" "nodes example_fs ?v = Some (Regular ''OTTO'')"
    "nodes example_fs ?g = None"
    by code_simp+
  have plain: "\<not> is_symlink ?nosym ?v" "\<not> is_symlink ?nosym ?tv" "\<not> is_symlink example_fs ?g"
    using free by (simp_all add: is_symlink_def)
  have link: "os_symlink example_fs ?v (install_target example_installed Otf ?v)
      = Inr (example_fs\<lparr>nodes := (nodes example_fs)(?tv \<mapsto> Symlink ?v)\<rparr>)"
    using free by (simp add: os_symlink_def tv)
  have busy: "os_symlink example_fs ?y (install_target example_installed Otf ?y) = Inl (OSError ''File exists'')"
    using free by (simp add: os_symlink_def ty)
  have copied: "copyfile ?nosym ?v (install_target example_installed Otf ?v)
      = Inr (example_fs\<lparr>symlinks_supported := False, nodes := (nodes example_fs)(?tv \<mapsto> Regular ''OTTO'')\<rparr>)"
    using free follow_self[OF plain(1)] follow_self[OF plain(2)] by (simp add: copyfile_def tv)
  have gone: "copyfile example_fs ?g (install_target example_installed Otf ?g) = Inl ''No such file or directory''"
    using free follow_self[OF plain(3)] by (simp add: copyfile_def tg)
  have none: "fst (InstalledMusicFonts_install example_fs example_installed Otf ?v False) = None"
    by code_simp
  then obtain fs' inst' where
    r: "InstalledMusicFonts_install example_fs example_installed Otf ?v False = (None, fs', inst')"
    by (cases "InstalledMusicFonts_install example_fs example_installed Otf ?v False") auto
  note a = install_links_or_copies[of example_fs ?v example_installed Otf False]
  note b = install_links_or_copies[of ?nosym ?v example_installed Otf False]
  note c = install_links_or_copies[of example_fs ?y example_installed Otf False]
  note d = install_links_or_copies[of example_fs ?g example_installed Otf False]
  have 1: "InstalledMusicFonts_install example_fs example_installed Otf ?v False
     = register_target (example_fs\<lparr>nodes := (nodes example_fs)(?tv \<mapsto> Symlink ?v)\<rparr>) example_installed ?tv"
    using a link tv by simp
  have 2: "path_exists (fst (snd (InstalledMusicFonts_install example_fs example_installed Otf ?v False))) ?tv"
    using a r tv by simp
  have 3: "InstalledMusicFonts_install ?nosym example_installed Otf ?v False
     = InstalledMusicFonts_install ?nosym example_installed Otf ?v True"
    using b by simp
  have 4: "InstalledMusicFonts_install ?nosym example_installed Otf ?v True
     = register_target
         (example_fs\<lparr>symlinks_supported := False, nodes := (nodes example_fs)(?tv \<mapsto> Regular ''OTTO'')\<rparr>)
         example_installed ?tv"
    using b copied tv by simp
  have 5: "InstalledMusicFonts_install example_fs example_installed Otf ?y False
     = (Some (MusicFontPermissionException (''Font installation failed:'' @ [newline] @ ''File exists'')),
        example_fs, example_installed)"
    using c busy by simp
  have 6: "InstalledMusicFonts_install example_fs example_installed Otf ?g True
     = (Some (MusicFontPermissionException
                (''Font installation failed:'' @ [newline] @ ''No such file or directory'')),
        example_fs, example_installed)"
    using d gone by simp
  show ?thesis using 1 none 2 3 4 5 6 by blast
qed

section \<open>Flagging for installation\<close>

lemma update_present_keys: "map_of al k = Some v \<Longrightarrow> map fst (AList.update k v' al) = map fst al"
  by (induction al) auto

lemma status_slot:
  "map_of (files (snd (MusicFontFamily_status fs F ty sz)) ty') sz' =
     (if ty' = ty \<and> sz' = sz
      then map_option (\<lambda>font. font\<lparr>status := Some (fst (MusicFontFamily_status fs F ty sz))\<rparr>)
             (map_of (files F ty) sz)
      else map_of (files F ty') sz')"
  by (auto simp: MusicFontFamily_status_def AList.update_conv' split: option.splits)

lemma status_keys:
  "map fst (files (snd (MusicFontFamily_status fs F ty sz)) ty') = map fst (files F ty')"
  by (auto simp: MusicFontFamily_status_def update_present_keys split: option.splits)

lemma status_family: "family (snd (MusicFontFamily_status fs F ty sz)) = family F"
  by (auto simp: MusicFontFamily_status_def split: option.splits)

lemma set_install_slot:
  "map_of (files (set_install F ty sz) ty') sz' =
     (if ty' = ty \<and> sz' = sz
      then map_option (\<lambda>font. font\<lparr>install := True\<rparr>) (map_of (files F ty) sz)
      else map_of (files F ty') sz')"
  by (auto simp: set_install_def AList.update_conv' split: option.splits)

lemma set_install_keys: "map fst (files (set_install F ty sz) ty') = map fst (files F ty')"
  by (auto simp: set_install_def update_present_keys split: option.splits)

lemma status_fst_cong:
  "map_of (files F' ty) sz = map_of (files F ty) sz \<Longrightarrow>
     fst (MusicFontFamily_status fs F' ty sz) = fst (MusicFontFamily_status fs F ty sz)"
  by (simp add: MusicFontFamily_status_def split: option.splits)

lemma status_fst_memo:
  "map_of (files F' ty) sz =
      map_option (\<lambda>font. font\<lparr>status := Some (fst (MusicFontFamily_status fs F ty sz))\<rparr>)
        (map_of (files F ty) sz) \<Longrightarrow>
     fst (MusicFontFamily_status fs F' ty sz) = fst (MusicFontFamily_status fs F ty sz)"
  by (simp add: MusicFontFamily_status_def split: option.splits)

lemma status_fst_install:
  "map_of (files F' ty) sz = map_option (\<lambda>font. font\<lparr>install := b\<rparr>) (map_of (files F ty) sz) \<Longrightarrow>
     fst (MusicFontFamily_status fs F' ty sz) = fst (MusicFontFamily_status fs F ty sz)"
  by (auto simp: MusicFontFamily_status_def split: option.splits)


lemma status_keeps:
  "slot_file (snd (MusicFontFamily_status fs F ty sz)) ty' sz' = slot_file F ty' sz'"
  "slot_install (snd (MusicFontFamily_status fs F ty sz)) ty' sz' = slot_install F ty' sz'"
  "slot_status fs (snd (MusicFontFamily_status fs F ty sz)) ty' sz' = slot_status fs F ty' sz'"
proof -
  show "slot_file (snd (MusicFontFamily_status fs F ty sz)) ty' sz' = slot_file F ty' sz'"
    by (simp add: slot_file_def status_slot option.map_comp comp_def)
  show "slot_install (snd (MusicFontFamily_status fs F ty sz)) ty' sz' = slot_install F ty' sz'"
    by (simp add: slot_install_def status_slot option.map_comp comp_def)
  show "slot_status fs (snd (MusicFontFamily_status fs F ty sz)) ty' sz' = slot_status fs F ty' sz'"
    unfolding slot_status_def
    by (cases "ty' = ty \<and> sz' = sz") (auto simp: status_slot intro: status_fst_memo status_fst_cong)
qed

lemma set_install_keeps:
  "slot_file (set_install F ty sz) ty' sz' = slot_file F ty' sz'"
  "slot_status fs (set_install F ty sz) ty' sz' = slot_status fs F ty' sz'"
  "slot_install (set_install F ty sz) ty' sz' =
     (if ty' = ty \<and> sz' = sz then map_option (\<lambda>b. True) (slot_install F ty sz)
      else slot_install F ty' sz')"
proof -
  show "slot_file (set_install F ty sz) ty' sz' = slot_file F ty' sz'"
    by (simp add: slot_file_def set_install_slot option.map_comp comp_def)
  show "slot_status fs (set_install F ty sz) ty' sz' = slot_status fs F ty' sz'"
    unfolding slot_status_def
    by (cases "ty' = ty \<and> sz' = sz") (auto simp: set_install_slot intro: status_fst_install status_fst_cong)
  show "slot_install (set_install F ty sz) ty' sz' =
     (if ty' = ty \<and> sz' = sz then map_option (\<lambda>b. True) (slot_install F ty sz)
      else slot_install F ty' sz')"
    by (simp add: slot_install_def set_install_slot option.map_comp comp_def)
qed

lemma flag_slot_step:
  assumes "flag_slot fs (ty, sz) (F, T) = (F1, T1)"
  shows "slot_file F1 ty' sz' = slot_file F ty' sz'"
    and "slot_status fs F1 ty' sz' = slot_status fs F ty' sz'"
    and "slot_status fs T1 ty' sz' = slot_status fs T ty' sz'"
    and "slot_install F1 ty' sz' =
           map_option (\<lambda>b. b \<or> (ty' = ty \<and> sz' = sz \<and> should_flag fs F T ty sz)) (slot_install F ty' sz')"
    and "map fst (files F1 ty') = map fst (files F ty')"
proof -
  obtain own Fa where a: "MusicFontFamily_status fs F ty sz = (own, Fa)"
    by (cases "MusicFontFamily_status fs F ty sz")
  obtain there Ta where b: "MusicFontFamily_status fs T ty sz = (there, Ta)"
    by (cases "MusicFontFamily_status fs T ty sz")
  have own: "own = slot_status fs F ty sz" and Fa: "Fa = snd (MusicFontFamily_status fs F ty sz)"
    and there: "there = slot_status fs T ty sz" and Ta: "Ta = snd (MusicFontFamily_status fs T ty sz)"
    using a b by (simp_all add: slot_status_def)
  have F1: "F1 = (if should_flag fs F T ty sz then set_install Fa ty sz else Fa)"
    and T1: "T1 = (if usable own then Ta else T)"
    using assms a b own there by (auto simp: flag_slot_def should_flag_def split: if_splits)
  show "slot_file F1 ty' sz' = slot_file F ty' sz'"
    by (simp add: F1 Fa set_install_keeps status_keeps)
  show "slot_status fs F1 ty' sz' = slot_status fs F ty' sz'"
    by (simp add: F1 Fa set_install_keeps status_keeps)
  show "slot_status fs T1 ty' sz' = slot_status fs T ty' sz'"
    by (simp add: T1 Ta status_keeps)
  show "slot_install F1 ty' sz' =
           map_option (\<lambda>b. b \<or> (ty' = ty \<and> sz' = sz \<and> should_flag fs F T ty sz)) (slot_install F ty' sz')"
    by (cases "slot_install F ty' sz'") (auto simp: F1 Fa set_install_keeps status_keeps)
  show "map fst (files F1 ty') = map fst (files F ty')"
    by (simp add: F1 Fa set_install_keys status_keys)
qed

lemma should_flag_cong:
  assumes "\<And>ty sz. slot_status fs F1 ty sz = slot_status fs F ty sz"
    and "\<And>ty sz. slot_status fs T1 ty sz = slot_status fs T ty sz"
  shows "should_flag fs F1 T1 ty sz = should_flag fs F T ty sz"
  using assms by (simp add: should_flag_def)

lemma fold_flag_slot:
  assumes "fold (flag_slot fs) ks (F, T) = (F', T')"
  shows "slot_file F' ty sz = slot_file F ty sz \<and>
         slot_status fs F' ty sz = slot_status fs F ty sz \<and>
         slot_status fs T' ty sz = slot_status fs T ty sz \<and>
         slot_install F' ty sz =
           map_option (\<lambda>b. b \<or> ((ty, sz) \<in> set ks \<and> should_flag fs F T ty sz)) (slot_install F ty sz) \<and>
         map fst (files F' ty) = map fst (files F ty)"
  using assms
proof (induction ks arbitrary: F T)
  case Nil
  then show ?case by (cases "slot_install F ty sz") auto
next
  case (Cons k ks)
  obtain kt ks' where k: "k = (kt, ks')" by (cases k)
  obtain F1 T1 where s: "flag_slot fs (kt, ks') (F, T) = (F1, T1)"
    by (cases "flag_slot fs (kt, ks') (F, T)")
  note st = flag_slot_step[OF s]
  have r: "fold (flag_slot fs) ks (F1, T1) = (F', T')" using Cons.prems k s by simp
  have c: "should_flag fs F1 T1 ty sz = should_flag fs F T ty sz"
    by (rule should_flag_cong) (simp_all add: st)
  show ?case
    using Cons.IH[OF r] c st(1)[of ty sz] st(2)[of ty sz] st(3)[of ty sz] st(4)[of ty sz] st(5)[of ty] k
    by (cases "slot_install F ty sz") auto
qed

lemma slot_in_keys: "map_of (files F ty) sz = Some font \<Longrightarrow> (ty, sz) \<in> set (slot_keys F)"
  by (cases ty) (force simp: slot_keys_def all_types_def dest!: map_of_SomeD)+


lemma flag_for_install_slots:
  assumes "MusicFontFamily_flag_for_install fs F T = (F', T')"
  shows "slot_file F' ty sz = slot_file F ty sz"
    and "slot_status fs F' ty sz = slot_status fs F ty sz"
    and "slot_status fs T' ty sz = slot_status fs T ty sz"
    and "slot_install F' ty sz = map_option (\<lambda>b. b \<or> should_flag fs F T ty sz) (slot_install F ty sz)"
    and "map fst (files F' ty) = map fst (files F ty)"
proof -
  have f: "fold (flag_slot fs) (slot_keys F) (F, T) = (F', T')"
    using assms by (simp add: MusicFontFamily_flag_for_install_def)
  note r = fold_flag_slot[OF f, of ty sz]
  show "slot_file F' ty sz = slot_file F ty sz" "slot_status fs F' ty sz = slot_status fs F ty sz"
    "slot_status fs T' ty sz = slot_status fs T ty sz" "map fst (files F' ty) = map fst (files F ty)"
    using r by simp_all
  show "slot_install F' ty sz = map_option (\<lambda>b. b \<or> should_flag fs F T ty sz) (slot_install F ty sz)"
  proof (cases "map_of (files F ty) sz")
    case None
    then show ?thesis using r by (simp add: slot_install_def)
  next
    case (Some font)
    then show ?thesis using r slot_in_keys[OF Some] by (simp add: slot_install_def)
  qed
qed

lemma map_of_map_values: "map_of (map (\<lambda>p. (fst p, g (snd p))) al) k = map_option g (map_of al k)"
  by (induction al) auto

lemma flag_all_slots:
  "slot_file (MusicFontFamily_flag_all_for_install F) ty sz = slot_file F ty sz"
  "slot_install (MusicFontFamily_flag_all_for_install F) ty sz = map_option (\<lambda>b. True) (slot_install F ty sz)"
  "map fst (files (MusicFontFamily_flag_all_for_install F) ty) = map fst (files F ty)"
  by (simp_all add: MusicFontFamily_flag_all_for_install_def slot_file_def slot_install_def
      map_of_map_values option.map_comp comp_def case_prod_unfold)

lemma flag_all_twice:
  "MusicFontFamily_flag_all_for_install (MusicFontFamily_flag_all_for_install F)
     = MusicFontFamily_flag_all_for_install F"
  by (simp add: MusicFontFamily_flag_all_for_install_def comp_def case_prod_unfold)

lemma fold_flag_family_absent:
  assumes "fold (flag_family fs) ks (R, I) = (R', I')"
    and "map_of R name = Some F" "map_of I name = None"
  shows "map_of I' name = None \<and>
         map_of R' name = Some (if name \<in> set ks then MusicFontFamily_flag_all_for_install F else F)"
  using assms
proof (induction ks arbitrary: R I F)
  case Nil
  then show ?case by simp
next
  case (Cons k ks)
  obtain R1 I1 where s: "flag_family fs k (R, I) = (R1, I1)" by (cases "flag_family fs k (R, I)")
  have r: "fold (flag_family fs) ks (R1, I1) = (R', I')" using Cons.prems(1) s by simp
  show ?case
  proof (cases "k = name")
    case True
    then have 1: "map_of R1 name = Some (MusicFontFamily_flag_all_for_install F)" "map_of I1 name = None"
      using s Cons.prems(2,3)
      by (auto simp: flag_family_def AbstractMusicFontList_family_def AList.update_conv')
    show ?thesis using Cons.IH[OF r 1] True by (simp add: flag_all_twice)
  next
    case False
    then have 1: "map_of R1 name = Some F" "map_of I1 name = None"
      using s Cons.prems(2,3)
      by (auto simp: flag_family_def AbstractMusicFontList_family_def AList.update_conv'
          split: option.splits prod.splits)
    show ?thesis using Cons.IH[OF r 1] False by simp
  qed
qed

lemma repo_flag_families:
  "families (fst (snd (MusicFontRepo_flag_for_install fs repo installed)))
     = fst (fold (flag_family fs) (map fst (families repo)) (families repo, installed))"
  by (simp add: MusicFontRepo_flag_for_install_def split: prod.splits)

lemma repo_flag_absent:
  assumes "map_of (families repo) name = Some F" "map_of installed name = None"
  shows "map_of (families (fst (snd (MusicFontRepo_flag_for_install fs repo installed)))) name
           = Some (MusicFontFamily_flag_all_for_install F)"
proof -
  obtain R' I' where f: "fold (flag_family fs) (map fst (families repo)) (families repo, installed) = (R', I')"
    by (cases "fold (flag_family fs) (map fst (families repo)) (families repo, installed)")
  have "name \<in> set (map fst (families repo))"
    using assms(1) by (force dest!: map_of_SomeD)
  then show ?thesis using fold_flag_family_absent[OF f assms] f by (simp add: repo_flag_families)
qed

text \<open>
  Claim C4. After \<open>flag_for_install\<close> on a family and a target family, the flag of a slot
  is set when it was set before or when the slot's own status is \<open>FILE\<close> or \<open>LINK\<close> and
  the status of the same slot of the target is neither; the files stay those of the
  slots. So no flag changes when every slot of the family is \<open>FILE\<close> or \<open>LINK\<close> in the
  target. When the installed list has no family of the name, \<open>flag_for_install\<close> of the
  repository sets the flag of every file of the family.
\<close>

theorem flag_for_install_flags_installable:
  "(\<forall>ty sz.
      slot_install (fst (MusicFontFamily_flag_for_install fs F T)) ty sz =
        map_option (\<lambda>flag. flag \<or> (usable (slot_status fs F ty sz) \<and> \<not> usable (slot_status fs T ty sz)))
          (slot_install F ty sz) \<and>
      slot_file (fst (MusicFontFamily_flag_for_install fs F T)) ty sz = slot_file F ty sz) \<and>
   ((\<forall>(ty, sz) \<in> set (slot_keys F). usable (slot_status fs T ty sz)) \<longrightarrow>
      (\<forall>ty sz. slot_install (fst (MusicFontFamily_flag_for_install fs F T)) ty sz = slot_install F ty sz)) \<and>
   (AbstractMusicFontList_family (families repo) name = Some F \<and>
    AbstractMusicFontList_family installed name = None \<longrightarrow>
      (\<exists>F'. AbstractMusicFontList_family
               (families (fst (snd (MusicFontRepo_flag_for_install fs repo installed)))) name = Some F' \<and>
            (\<forall>ty sz. slot_file F' ty sz = slot_file F ty sz \<and>
                     slot_install F' ty sz = map_option (\<lambda>flag. True) (slot_install F ty sz))))"
proof -
  obtain F' T' where f: "MusicFontFamily_flag_for_install fs F T = (F', T')"
    by (cases "MusicFontFamily_flag_for_install fs F T")
  note s = flag_for_install_slots[OF f]
  have 1: "\<forall>ty sz.
      slot_install (fst (MusicFontFamily_flag_for_install fs F T)) ty sz =
        map_option (\<lambda>flag. flag \<or> (usable (slot_status fs F ty sz) \<and> \<not> usable (slot_status fs T ty sz)))
          (slot_install F ty sz) \<and>
      slot_file (fst (MusicFontFamily_flag_for_install fs F T)) ty sz = slot_file F ty sz"
    using s(1,4) f by (simp add: should_flag_def)
  have 2: "\<forall>ty sz. slot_install (fst (MusicFontFamily_flag_for_install fs F T)) ty sz = slot_install F ty sz"
    if h: "\<forall>(ty, sz) \<in> set (slot_keys F). usable (slot_status fs T ty sz)"
  proof (intro allI)
    fix ty sz
    show "slot_install (fst (MusicFontFamily_flag_for_install fs F T)) ty sz = slot_install F ty sz"
    proof (cases "map_of (files F ty) sz")
      case None
      then show ?thesis using 1 by (simp add: slot_install_def)
    next
      case (Some font)
      then have "usable (slot_status fs T ty sz)" using h slot_in_keys by fastforce
      then show ?thesis using 1 by (simp add: option.map_ident)
    qed
  qed
  have 3: "\<exists>F'. AbstractMusicFontList_family
               (families (fst (snd (MusicFontRepo_flag_for_install fs repo installed)))) name = Some F' \<and>
            (\<forall>ty sz. slot_file F' ty sz = slot_file F ty sz \<and>
                     slot_install F' ty sz = map_option (\<lambda>flag. True) (slot_install F ty sz))"
    if "AbstractMusicFontList_family (families repo) name = Some F \<and>
        AbstractMusicFontList_family installed name = None"
    using repo_flag_absent[of repo name F installed fs] that flag_all_slots
    by (simp add: AbstractMusicFontList_family_def)
  show ?thesis using 1 2 3 by blast
qed

theorem flag_for_install_flags_installable_witness:
  "slot_install (fst (MusicFontFamily_flag_for_install example_fs example_repo_family example_family))
      Otf ''11'' = Some False \<and>
   slot_install (fst (MusicFontFamily_flag_for_install example_fs example_repo_family example_family))
      Otf ''13'' = Some True \<and>
   slot_install (fst (MusicFontFamily_flag_for_install example_fs example_repo_family example_family))
      Otf ''16'' = Some True \<and>
   slot_install
      (fst (MusicFontFamily_flag_for_install example_fs
              (one_file_family ''y'' Otf ''11'' ''/repo/y-11.otf'')
              (one_file_family ''y'' Otf ''11'' ''/lily/fonts/otf/y-11.otf'')))
      Otf ''11'' = Some False \<and>
   map_option (\<lambda>F'. slot_install F' Otf ''11'')
      (AbstractMusicFontList_family
         (families (fst (snd (MusicFontRepo_flag_for_install example_fs example_repo
                                (families example_installed))))) ''v'')
     = Some (Some True)"
proof -
  let ?Y = "one_file_family ''y'' Otf ''11'' ''/repo/y-11.otf''"
  let ?YT = "one_file_family ''y'' Otf ''11'' ''/lily/fonts/otf/y-11.otf''"
  let ?V = "one_file_family ''v'' Otf ''11'' ''/repo/v-11.otf''"
  have own: "slot_status example_fs example_repo_family Otf ''11'' = FILE"
    "slot_status example_fs example_repo_family Otf ''13'' = FILE"
    "slot_status example_fs example_repo_family Otf ''16'' = FILE"
    by code_simp+
  have there: "slot_status example_fs example_family Otf ''11'' = LINK"
    "slot_status example_fs example_family Otf ''13'' = BROKEN_LINK"
    "slot_status example_fs example_family Otf ''16'' = MISSING"
    by code_simp+
  have before: "slot_install example_repo_family Otf ''11'' = Some False"
    "slot_install example_repo_family Otf ''13'' = Some False"
    "slot_install example_repo_family Otf ''16'' = Some False"
    "slot_install ?Y Otf ''11'' = Some False" "slot_install ?V Otf ''11'' = Some False"
    by code_simp+
  note a = flag_for_install_flags_installable[of example_fs example_repo_family example_family]
  have 1: "slot_install (fst (MusicFontFamily_flag_for_install example_fs example_repo_family example_family))
      Otf ''11'' = Some False"
    and 2: "slot_install (fst (MusicFontFamily_flag_for_install example_fs example_repo_family example_family))
      Otf ''13'' = Some True"
    and 3: "slot_install (fst (MusicFontFamily_flag_for_install example_fs example_repo_family example_family))
      Otf ''16'' = Some True"
    using a own there before by (simp_all add: usable_def)
  have keys: "slot_keys ?Y = [(Otf, ''11'')]" by code_simp
  have yt: "slot_status example_fs ?YT Otf ''11'' = LINK" by code_simp
  have 4: "slot_install (fst (MusicFontFamily_flag_for_install example_fs ?Y ?YT)) Otf ''11'' = Some False"
    using flag_for_install_flags_installable[of example_fs ?Y ?YT] keys yt before
    by (simp add: usable_def)
  have v: "AbstractMusicFontList_family (families example_repo) ''v'' = Some ?V"
    "AbstractMusicFontList_family (families example_installed) ''v'' = None"
    by (simp_all add: AbstractMusicFontList_family_def example_repo_def example_installed_def)
  have 5: "map_option (\<lambda>F'. slot_install F' Otf ''11'')
      (AbstractMusicFontList_family
         (families (fst (snd (MusicFontRepo_flag_for_install example_fs example_repo
                                (families example_installed))))) ''v'')
     = Some (Some True)"
  proof -
    from flag_for_install_flags_installable[of example_fs ?V ?V example_repo "''v''" "families example_installed"]
    obtain F' where "AbstractMusicFontList_family
         (families (fst (snd (MusicFontRepo_flag_for_install example_fs example_repo
                                (families example_installed))))) ''v'' = Some F'"
      and "slot_install F' Otf ''11'' = map_option (\<lambda>flag. True) (slot_install ?V Otf ''11'')"
      using v by blast
    then show ?thesis using before by simp
  qed
  show ?thesis using 1 2 3 4 5 by blast
qed

section \<open>The status of a registered file\<close>

lemma resolve_status_cases:
  "resolve_status fs f =
     (case nodes fs f of
        None \<Rightarrow> MISSING_FILE
      | Some (Symlink t) \<Rightarrow> (if path_exists fs f then LINK else BROKEN_LINK)
      | Some (Regular b) \<Rightarrow> FILE
      | Some other \<Rightarrow> MISSING_FILE)"
proof (cases "is_symlink fs f")
  case True
  then show ?thesis by (auto simp: resolve_status_def is_symlink_def split: option.splits node.splits)
next
  case False
  then show ?thesis
    using stat_self[OF False]
    by (auto simp: resolve_status_def is_file_def is_symlink_def split: option.splits node.splits)
qed

text \<open>
  \<open>check_file\<close> refuses a path that does not exist, a dangling link included. For a path
  that it accepts the status is never \<open>BROKEN_LINK\<close>, and it is \<open>MISSING_FILE\<close> exactly
  when the path is a directory or a special file.
\<close>

lemma check_file_missing:
  "\<not> path_exists fs f \<Longrightarrow> \<exists>msg. check_file fs f = Inl (MusicFontException msg)"
  by (simp add: check_file_def)

lemma registered_status:
  assumes "check_file fs f = Inr k"
  shows "resolve_status fs f \<noteq> BROKEN_LINK"
    and "resolve_status fs f = MISSING_FILE \<longleftrightarrow> nodes fs f = Some Directory \<or> nodes fs f = Some Special"
proof -
  have e: "path_exists fs f" using assms by (auto simp: check_file_def split: if_splits)
  then show "resolve_status fs f \<noteq> BROKEN_LINK" by (simp add: resolve_status_def)
  have "nodes fs f \<noteq> None"
  proof (cases "is_symlink fs f")
    case True
    then show ?thesis by (auto simp: is_symlink_def split: option.splits)
  next
    case False
    then show ?thesis using e stat_self[OF False] by (simp add: path_exists_def)
  qed
  then show "resolve_status fs f = MISSING_FILE \<longleftrightarrow> nodes fs f = Some Directory \<or> nodes fs f = Some Special"
    using e by (auto simp: resolve_status_cases is_symlink_def split: option.splits node.splits)
qed

text \<open>
  Claim C8 at a named pipe and at a directory that carry the name of a font: the
  existence check of \<open>check_file\<close> accepts them, \<open>add_tree\<close> and \<open>add_file\<close> register
  them, and on the same file system the status of the registered slot is
  \<open>MISSING_FILE\<close>.
\<close>

theorem registered_pipe_is_missing_file:
  "check_file pipe_fs ''/fonts/otf/foo-11.otf'' = Inr (''foo'', Otf, ''11'') \<and>
   AbstractMusicFontList_families
     (AbstractMusicFontList_add_tree pipe_fs [''/fonts/otf/foo-11.otf''] []) = [''foo''] \<and>
   list_status pipe_fs (AbstractMusicFontList_add_tree pipe_fs [''/fonts/otf/foo-11.otf''] [])
     ''foo'' Otf ''11'' = Some MISSING_FILE \<and>
   (case AbstractMusicFontList_add_file pipe_fs [] ''/fonts/otf/foo-13.otf'' of
      Inl e \<Rightarrow> None
    | Inr reg \<Rightarrow> list_status pipe_fs reg ''foo'' Otf ''13'') = Some MISSING_FILE"
  by code_simp

section \<open>Reading a tree twice\<close>

lemma add_tree_step_ok:
  assumes "check_file fs f = Inr (fam, ty, sz)"
  shows "add_tree_step fs f reg = AList.update fam (MusicFontFamily_add (base_family reg fam) ty sz f) reg"
proof (cases "map_of reg fam")
  case None
  have "f \<noteq> []" using assms by (rule check_file_nonempty)
  then have "MusicFontFamily_init fs (Some f)
      = Inr (MusicFontFamily_add (MusicFontFamily_empty\<lparr>family := Some fam\<rparr>) ty sz f)"
    using assms by (simp add: MusicFontFamily_init_def MusicFontFamily_add_file_def MusicFontFamily_empty_def)
  then show ?thesis
    using assms None by (simp add: add_tree_step_def AbstractMusicFontList_add_file_def base_family_def)
next
  case (Some F)
  then show ?thesis
    using assms by (simp add: add_tree_step_def AbstractMusicFontList_add_file_def base_family_def)
qed

lemma add_tree_step_skip: "check_file fs f = Inl e \<Longrightarrow> add_tree_step fs f reg = reg"
  by (simp add: add_tree_step_def AbstractMusicFontList_add_file_def)

lemma list_slot_step:
  "list_slot (add_tree_step fs f reg) name ty sz =
     (case check_file fs f of
        Inl e \<Rightarrow> list_slot reg name ty sz
      | Inr (fam, ty', sz') \<Rightarrow>
          if fam = name \<and> ty' = ty \<and> sz' = sz then Some (MusicFontFile_init f)
          else list_slot reg name ty sz)"
proof (cases "check_file fs f")
  case (Inl e)
  then show ?thesis by (simp add: add_tree_step_skip)
next
  case (Inr k)
  obtain fam ty' sz' where k: "k = (fam, ty', sz')" by (cases k)
  show ?thesis
    using Inr k add_tree_step_ok[of fs f fam ty' sz' reg]
    by (auto simp: list_slot_def AbstractMusicFontList_family_def AList.update_conv'
        MusicFontFamily_add_def base_family_def MusicFontFamily_empty_def split: option.splits)
qed

lemma keys_step:
  "map fst (add_tree_step fs f reg) =
     (case check_file fs f of
        Inl e \<Rightarrow> map fst reg
      | Inr (fam, ty, sz) \<Rightarrow> if fam \<in> set (map fst reg) then map fst reg else map fst reg @ [fam])"
proof (cases "check_file fs f")
  case (Inl e)
  then show ?thesis by (simp add: add_tree_step_skip)
next
  case (Inr k)
  obtain fam ty' sz' where k: "k = (fam, ty', sz')" by (cases k)
  show ?thesis using Inr k add_tree_step_ok[of fs f fam ty' sz' reg] by (simp add: AList.update_keys)
qed

lemma list_slot_tree:
  "list_slot (AbstractMusicFontList_add_tree fs found reg) name ty sz =
     (case tree_writes fs found name (ty, sz) of
        Some font \<Rightarrow> Some font
      | None \<Rightarrow> list_slot reg name ty sz)"
  unfolding AbstractMusicFontList_add_tree_def
proof (induction found arbitrary: reg)
  case Nil
  then show ?case by simp
next
  case (Cons f found)
  show ?case
  proof (cases "check_file fs f")
    case (Inl e)
    then show ?thesis
      using Cons.IH[of "add_tree_step fs f reg"] by (simp add: list_slot_step split: option.splits)
  next
    case (Inr k)
    obtain fam ty' sz' where k: "k = (fam, ty', sz')" by (cases k)
    show ?thesis
      using Cons.IH[of "add_tree_step fs f reg"] Inr k
      by (auto simp: list_slot_step map_add_def split: option.splits)
  qed
qed

lemma keys_tree_grow: "set (map fst reg) \<subseteq> set (map fst (AbstractMusicFontList_add_tree fs found reg))"
  unfolding AbstractMusicFontList_add_tree_def
proof (induction found arbitrary: reg)
  case Nil
  then show ?case by simp
next
  case (Cons f found)
  have "set (map fst reg) \<subseteq> set (map fst (add_tree_step fs f reg))"
    by (auto simp: keys_step split: sum.splits)
  then show ?case using Cons.IH[of "add_tree_step fs f reg"] by auto
qed

lemma keys_tree_touched:
  "tree_touches fs found name \<Longrightarrow> name \<in> set (map fst (AbstractMusicFontList_add_tree fs found reg))"
proof (induction found arbitrary: reg)
  case Nil
  then show ?case by (simp add: tree_touches_def)
next
  case (Cons f found)
  have t: "AbstractMusicFontList_add_tree fs (f # found) reg
      = AbstractMusicFontList_add_tree fs found (add_tree_step fs f reg)"
    by (simp add: AbstractMusicFontList_add_tree_def)
  show ?case
  proof (cases "tree_touches fs found name")
    case True
    then show ?thesis using Cons.IH t by simp
  next
    case False
    then obtain ty sz where "check_file fs f = Inr (name, ty, sz)"
      using Cons.prems by (auto simp: tree_touches_def split: sum.splits)
    then have "name \<in> set (map fst (add_tree_step fs f reg))" by (simp add: keys_step)
    then show ?thesis using keys_tree_grow[of "add_tree_step fs f reg" fs found] t by auto
  qed
qed

lemma keys_tree_same:
  "(\<And>name. tree_touches fs found name \<Longrightarrow> name \<in> set (map fst reg)) \<Longrightarrow>
     map fst (AbstractMusicFontList_add_tree fs found reg) = map fst reg"
proof (induction found arbitrary: reg)
  case Nil
  then show ?case by (simp add: AbstractMusicFontList_add_tree_def)
next
  case (Cons f found)
  have t: "AbstractMusicFontList_add_tree fs (f # found) reg
      = AbstractMusicFontList_add_tree fs found (add_tree_step fs f reg)"
    by (simp add: AbstractMusicFontList_add_tree_def)
  have s: "map fst (add_tree_step fs f reg) = map fst reg"
    using Cons.prems[unfolded tree_touches_def] by (auto simp: keys_step split: sum.splits)
  have "\<And>name. tree_touches fs found name \<Longrightarrow> name \<in> set (map fst (add_tree_step fs f reg))"
    using Cons.prems s by (simp add: tree_touches_def)
  then show ?case using Cons.IH[of "add_tree_step fs f reg"] t s by simp
qed


lemma slot_status_stored: "slot_status fs F ty sz = stored_status fs (map_of (files F ty) sz)"
  by (simp add: slot_status_def stored_status_def MusicFontFamily_status_def split: option.splits)

lemma list_status_slot:
  "list_status fs reg name ty sz =
     (if name \<in> set (map fst reg) then Some (stored_status fs (list_slot reg name ty sz)) else None)"
proof (cases "map_of reg name")
  case None
  then have "name \<notin> set (map fst reg)" by (simp add: map_of_eq_None_iff)
  then show ?thesis using None by (simp add: list_status_def AbstractMusicFontList_family_def)
next
  case (Some F)
  then have "name \<in> set (map fst reg)" by (force dest!: map_of_SomeD)
  then show ?thesis
    using Some by (simp add: list_status_def list_slot_def AbstractMusicFontList_family_def slot_status_stored)
qed

lemma query_keys: "map fst (query_status fs q reg) = map fst reg"
  by (auto simp: query_status_def AbstractMusicFontList_family_def update_present_keys
      split: prod.splits option.splits)

lemma query_status_same:
  "list_status fs (query_status fs q reg) name ty sz = list_status fs reg name ty sz"
proof -
  obtain n t s where q: "q = (n, t, s)" by (cases q)
  show ?thesis
  proof (cases "map_of reg n")
    case None
    then show ?thesis using q by (simp add: query_status_def AbstractMusicFontList_family_def)
  next
    case (Some F)
    then have r: "query_status fs q reg = AList.update n (snd (MusicFontFamily_status fs F t s)) reg"
      using q by (simp add: query_status_def AbstractMusicFontList_family_def)
    show ?thesis
      using Some status_keeps(3)[of fs F t s ty sz]
      by (simp add: r list_status_def AbstractMusicFontList_family_def AList.update_conv')
  qed
qed

lemma queries_keys: "map fst (fold (query_status fs) qs reg) = map fst reg"
  by (induction qs arbitrary: reg) (simp_all add: query_keys)

lemma queries_status_same:
  "list_status fs (fold (query_status fs) qs reg) name ty sz = list_status fs reg name ty sz"
  by (induction qs arbitrary: reg) (simp_all add: query_status_same)

text \<open>
  Claim C9. A second \<open>add_tree\<close> over the same walk on the same file system, after the
  first one and after any number of status queries on its result, gives a list with the
  same \<open>families()\<close> and with the same status in every slot of every family as the first
  call gave.
\<close>

theorem add_tree_twice:
  "AbstractMusicFontList_families
     (AbstractMusicFontList_add_tree fs found
        (fold (query_status fs) queries (AbstractMusicFontList_add_tree fs found reg)))
     = AbstractMusicFontList_families (AbstractMusicFontList_add_tree fs found reg) \<and>
   list_status fs
     (AbstractMusicFontList_add_tree fs found
        (fold (query_status fs) queries (AbstractMusicFontList_add_tree fs found reg))) name ty sz
     = list_status fs (AbstractMusicFontList_add_tree fs found reg) name ty sz"
proof -
  let ?r1 = "AbstractMusicFontList_add_tree fs found reg"
  let ?r1m = "fold (query_status fs) queries ?r1"
  let ?r2 = "AbstractMusicFontList_add_tree fs found ?r1m"
  have k1: "map fst ?r1m = map fst ?r1" by (rule queries_keys)
  have "\<And>name. tree_touches fs found name \<Longrightarrow> name \<in> set (map fst ?r1m)"
    using keys_tree_touched k1 by simp
  then have k2: "map fst ?r2 = map fst ?r1m" by (rule keys_tree_same)
  have keys: "map fst ?r2 = map fst ?r1" using k1 k2 by simp
  have fam: "AbstractMusicFontList_families ?r2 = AbstractMusicFontList_families ?r1"
    by (simp add: AbstractMusicFontList_families_def keys)
  have st: "list_status fs ?r2 name ty sz = list_status fs ?r1 name ty sz"
  proof (cases "name \<in> set (map fst ?r1)")
    case False
    then show ?thesis using keys by (simp add: list_status_slot)
  next
    case True
    have m: "stored_status fs (list_slot ?r1m name ty sz) = stored_status fs (list_slot ?r1 name ty sz)"
      using queries_status_same[of fs queries ?r1 name ty sz] True k1 by (simp add: list_status_slot)
    show ?thesis
    proof (cases "tree_writes fs found name (ty, sz)")
      case None
      then show ?thesis using True keys k1 m by (simp add: list_status_slot list_slot_tree)
    next
      case (Some font)
      then show ?thesis using True keys by (simp add: list_status_slot list_slot_tree)
    qed
  qed
  show ?thesis using fam st by simp
qed


theorem add_tree_twice_witness:
  "AbstractMusicFontList_families
     (AbstractMusicFontList_add_tree example_fs [''/repo/x-11.otf'', ''/repo/README'', ''/repo/v-11.otf'']
        (fold (query_status example_fs) [(''x'', Otf, ''11'')]
           (AbstractMusicFontList_add_tree example_fs
              [''/repo/x-11.otf'', ''/repo/README'', ''/repo/v-11.otf''] [])))
     = [''v'', ''x''] \<and>
   list_status example_fs
     (AbstractMusicFontList_add_tree example_fs [''/repo/x-11.otf'', ''/repo/README'', ''/repo/v-11.otf'']
        (fold (query_status example_fs) [(''x'', Otf, ''11'')]
           (AbstractMusicFontList_add_tree example_fs
              [''/repo/x-11.otf'', ''/repo/README'', ''/repo/v-11.otf''] []))) ''x'' Otf ''11''
     = Some FILE"
proof -
  let ?found = "[''/repo/x-11.otf'', ''/repo/README'', ''/repo/v-11.otf'']"
  have 1: "AbstractMusicFontList_families (AbstractMusicFontList_add_tree example_fs ?found []) = [''v'', ''x'']"
    by code_simp
  have 2: "list_status example_fs (AbstractMusicFontList_add_tree example_fs ?found []) ''x'' Otf ''11'' = Some FILE"
    by code_simp
  show ?thesis
    using add_tree_twice[of example_fs ?found "[(''x'', Otf, ''11'')]" "[]" "''x''" Otf "''11''"] 1 2
    by simp
qed

section \<open>Flags only rise\<close>

lemma table_update_same:
  "map_of al k = Some v \<Longrightarrow> font_file v' = font_file v \<Longrightarrow>
     map (\<lambda>(sz, font). (sz, font_file font)) (AList.update k v' al)
       = map (\<lambda>(sz, font). (sz, font_file font)) al"
  by (induction al) (auto split: if_splits)

lemma status_table: "file_table (snd (MusicFontFamily_status fs F ty sz)) ty' = file_table F ty'"
  by (auto simp: file_table_def MusicFontFamily_status_def table_update_same split: option.splits)

lemma set_install_table: "file_table (set_install F ty sz) ty' = file_table F ty'"
  by (auto simp: file_table_def set_install_def table_update_same split: option.splits)

lemma flag_all_table: "file_table (MusicFontFamily_flag_all_for_install F) ty = file_table F ty"
  by (simp add: file_table_def MusicFontFamily_flag_all_for_install_def case_prod_unfold comp_def)

lemma flag_slot_table:
  assumes "flag_slot fs k (F, T) = (F1, T1)"
  shows "file_table F1 ty = file_table F ty"
  using assms
  by (auto simp: flag_slot_def set_install_table status_table split: prod.splits if_splits)
     (metis snd_conv status_table)+

lemma fold_flag_slot_table:
  "fold (flag_slot fs) ks (F, T) = (F', T') \<Longrightarrow> file_table F' ty = file_table F ty"
proof (induction ks arbitrary: F T)
  case Nil
  then show ?case by simp
next
  case (Cons k ks)
  obtain F1 T1 where s: "flag_slot fs k (F, T) = (F1, T1)" by (cases "flag_slot fs k (F, T)")
  then have "fold (flag_slot fs) ks (F1, T1) = (F', T')" using Cons.prems by simp
  then show ?case using Cons.IH flag_slot_table[OF s] by simp
qed

lemma flag_for_install_grows:
  assumes "MusicFontFamily_flag_for_install fs F T = (F', T')"
  shows "family_grows F F'"
proof -
  have "file_table F' ty = file_table F ty" for ty
    using assms fold_flag_slot_table by (simp add: MusicFontFamily_flag_for_install_def)
  moreover have "slot_install F' ty sz = Some True" if "slot_install F ty sz = Some True" for ty sz
    using flag_for_install_slots(4)[OF assms, of ty sz] that by simp
  ultimately show ?thesis by (simp add: family_grows_def)
qed

lemma flag_all_grows: "family_grows F (MusicFontFamily_flag_all_for_install F)"
  by (simp add: family_grows_def flag_all_table flag_all_slots)

lemma family_grows_refl: "family_grows F F"
  by (simp add: family_grows_def)

lemma family_grows_trans: "family_grows F G \<Longrightarrow> family_grows G H \<Longrightarrow> family_grows F H"
  by (simp add: family_grows_def)

lemma list_grows_refl: "list_grows R R"
  by (simp add: list_grows_def family_grows_refl option.rel_refl)

lemma list_grows_trans: "list_grows R S \<Longrightarrow> list_grows S U \<Longrightarrow> list_grows R U"
  unfolding list_grows_def
proof (intro conjI allI)
  assume a: "map fst S = map fst R \<and> (\<forall>name. rel_option family_grows (map_of R name) (map_of S name))"
    and b: "map fst U = map fst S \<and> (\<forall>name. rel_option family_grows (map_of S name) (map_of U name))"
  show "map fst U = map fst R" using a b by simp
  fix name
  have "rel_option family_grows (map_of R name) (map_of S name)"
    "rel_option family_grows (map_of S name) (map_of U name)"
    using a b by simp_all
  then show "rel_option family_grows (map_of R name) (map_of U name)"
    by (cases "map_of R name"; cases "map_of S name"; cases "map_of U name")
       (auto intro: family_grows_trans)
qed

lemma list_grows_update:
  assumes "map_of R name = Some F" "family_grows F F'"
  shows "list_grows R (AList.update name F' R)"
  using assms
  by (auto simp: list_grows_def update_present_keys AList.update_conv' family_grows_refl option.rel_refl)

lemma flag_family_grows:
  assumes "flag_family fs k (R, I) = (R1, I1)"
  shows "list_grows R R1"
proof (cases "map_of R k")
  case None
  then show ?thesis
    using assms by (simp add: flag_family_def AbstractMusicFontList_family_def list_grows_refl)
next
  case (Some F)
  show ?thesis
  proof (cases "map_of I k")
    case None
    then show ?thesis
      using assms Some list_grows_update[OF Some flag_all_grows]
      by (simp add: flag_family_def AbstractMusicFontList_family_def)
  next
    case (Some T)
    obtain F' T' where f: "MusicFontFamily_flag_for_install fs F T = (F', T')"
      by (cases "MusicFontFamily_flag_for_install fs F T")
    show ?thesis
      using assms \<open>map_of R k = Some F\<close> Some f
        list_grows_update[OF \<open>map_of R k = Some F\<close> flag_for_install_grows[OF f]]
      by (simp add: flag_family_def AbstractMusicFontList_family_def)
  qed
qed

lemma fold_flag_family_grows:
  "fold (flag_family fs) ks (R, I) = (R', I') \<Longrightarrow> list_grows R R'"
proof (induction ks arbitrary: R I)
  case Nil
  then show ?case by (simp add: list_grows_refl)
next
  case (Cons k ks)
  obtain R1 I1 where s: "flag_family fs k (R, I) = (R1, I1)" by (cases "flag_family fs k (R, I)")
  then have "fold (flag_family fs) ks (R1, I1) = (R', I')" using Cons.prems by simp
  then show ?case using Cons.IH flag_family_grows[OF s] list_grows_trans by blast
qed

lemma repo_flag_grows:
  "list_grows (families repo) (families (fst (snd (MusicFontRepo_flag_for_install fs repo installed))))"
proof -
  obtain R' I' where f: "fold (flag_family fs) (map fst (families repo)) (families repo, installed) = (R', I')"
    by (cases "fold (flag_family fs) (map fst (families repo)) (families repo, installed)")
  show ?thesis using fold_flag_family_grows[OF f] f by (simp add: repo_flag_families)
qed


lemma slot_file_table: "slot_file F ty sz = map_of (file_table F ty) sz"
  by (simp add: slot_file_def file_table_def case_prod_unfold map_of_map_values)

lemma list_grows_family:
  assumes "list_grows R R'"
  shows "map_of R name = Some F \<Longrightarrow> \<exists>F'. map_of R' name = Some F' \<and> family_grows F F'"
    and "map_of R' name = Some F' \<Longrightarrow> \<exists>F. map_of R name = Some F \<and> family_grows F F'"
proof -
  have r: "rel_option family_grows (map_of R name) (map_of R' name)"
    using assms by (simp add: list_grows_def)
  show "map_of R name = Some F \<Longrightarrow> \<exists>F'. map_of R' name = Some F' \<and> family_grows F F'"
    using r by (cases "map_of R' name") auto
  show "map_of R' name = Some F' \<Longrightarrow> \<exists>F. map_of R name = Some F \<and> family_grows F F'"
    using r by (cases "map_of R name") auto
qed

lemma list_grows_slot:
  assumes "list_grows R R'" "list_slot R name ty sz = Some font" "install font"
  shows "\<exists>font'. list_slot R' name ty sz = Some font' \<and> install font' \<and> font_file font' = font_file font"
proof -
  obtain F where F: "map_of R name = Some F" "map_of (files F ty) sz = Some font"
    using assms(2) by (auto simp: list_slot_def AbstractMusicFontList_family_def split: option.splits)
  then obtain F' where F': "map_of R' name = Some F'" "family_grows F F'"
    using list_grows_family(1)[OF assms(1)] by blast
  have "slot_install F ty sz = Some True" using F assms(3) by (simp add: slot_install_def)
  then have i: "slot_install F' ty sz = Some True" using F'(2) by (simp add: family_grows_def)
  have "slot_file F' ty sz = slot_file F ty sz" using F'(2) by (simp add: family_grows_def slot_file_table)
  then have f: "slot_file F' ty sz = Some (font_file font)" using F by (simp add: slot_file_def)
  show ?thesis
    using i f F'(1) by (auto simp: list_slot_def AbstractMusicFontList_family_def slot_install_def slot_file_def)
qed

lemma family_ok_table: "(\<And>ty. file_table F' ty = file_table F ty) \<Longrightarrow> family_ok n F \<Longrightarrow> family_ok n F'"
  by (simp add: family_ok_def)

lemma list_grows_ok:
  assumes "registry_ok R" "list_grows R R'"
  shows "registry_ok R'"
proof -
  have d: "distinct (map fst R')" using assms by (simp add: registry_ok_def list_grows_def)
  have "family_ok n F'" if "(n, F') \<in> set R'" for n F'
  proof -
    have m: "map_of R' n = Some F'" using d that by simp
    then obtain F where F: "map_of R n = Some F" "family_grows F F'"
      using list_grows_family(2)[OF assms(2)] by blast
    have "family_ok n F" using registry_ok_family[OF assms(1) F(1)] .
    then show ?thesis using F(2) family_ok_table[of F' F n] by (simp add: family_grows_def)
  qed
  then show ?thesis using d by (auto simp: registry_ok_def list_all_iff)
qed

lemma walk_member:
  "(name, ty, sz, font) \<in> set (AbstractMusicFontList_walk reg) \<longleftrightarrow>
     (\<exists>F. map_of reg name = Some F \<and> (sz, font) \<in> set (files F ty))"
proof
  assume "(name, ty, sz, font) \<in> set (AbstractMusicFontList_walk reg)"
  then obtain n where n: "(name, ty, sz, font) \<in> set (case map_of reg n of None \<Rightarrow> []
        | Some F \<Rightarrow> map (\<lambda>(ty, sz, font). (n, ty, sz, font)) (MusicFontFamily_walk F))"
    by (auto simp: AbstractMusicFontList_walk_def AbstractMusicFontList_family_def)
  show "\<exists>F. map_of reg name = Some F \<and> (sz, font) \<in> set (files F ty)"
  proof (cases "map_of reg n")
    case None
    then show ?thesis using n by simp
  next
    case (Some F)
    then have "n = name" "(ty, sz, font) \<in> set (MusicFontFamily_walk F)" using n by auto
    then show ?thesis using Some by (auto simp: MusicFontFamily_walk_def)
  qed
next
  assume "\<exists>F. map_of reg name = Some F \<and> (sz, font) \<in> set (files F ty)"
  then obtain F where F: "map_of reg name = Some F" "(sz, font) \<in> set (files F ty)" by blast
  have n: "name \<in> fst ` set reg" using F(1) by (force dest!: map_of_SomeD)
  have "(ty, sz, font) \<in> set (MusicFontFamily_walk F)"
    using F(2) all_types_all[of ty] by (force simp: MusicFontFamily_walk_def)
  then show "(name, ty, sz, font) \<in> set (AbstractMusicFontList_walk reg)"
    using F(1) n by (force simp: AbstractMusicFontList_walk_def AbstractMusicFontList_family_def)
qed

lemma add_flagged_tree:
  "add_flagged fs fonts inst0 = (None, inst) \<Longrightarrow>
     inst = AbstractMusicFontList_add_tree fs (map font_file (filter install fonts)) inst0 \<and>
     (\<forall>font \<in> set fonts. install font \<longrightarrow> (\<exists>k. check_file fs (font_file font) = Inr k))"
proof (induction fonts arbitrary: inst0)
  case Nil
  then show ?case by (simp add: AbstractMusicFontList_add_tree_def)
next
  case (Cons font fonts)
  show ?case
  proof (cases "install font")
    case False
    then show ?thesis using Cons by simp
  next
    case True
    then obtain inst1 where a: "AbstractMusicFontList_add_file fs inst0 (font_file font) = Inr inst1"
      and r: "add_flagged fs fonts inst1 = (None, inst)"
      using Cons.prems by (auto split: sum.splits)
    have s: "add_tree_step fs (font_file font) inst0 = inst1" using a by (simp add: add_tree_step_def)
    have c: "\<exists>k. check_file fs (font_file font) = Inr k"
      using add_file_check[OF a] by auto
    show ?thesis using Cons.IH[OF r] True s c by (simp add: AbstractMusicFontList_add_tree_def)
  qed
qed

lemma tree_writes_unique:
  assumes "f \<in> set xs" "check_file fs f = Inr (name, ty, sz)"
    and "\<And>g. g \<in> set xs \<Longrightarrow> check_file fs g = Inr (name, ty, sz) \<Longrightarrow> g = f"
  shows "tree_writes fs xs name (ty, sz) = Some (MusicFontFile_init f)"
  using assms(1,3)
proof (induction xs)
  case Nil
  then show ?case by simp
next
  case (Cons x xs)
  have later: "tree_writes fs xs name (ty, sz) = Some (MusicFontFile_init f) \<or>
      (f \<notin> set xs \<and> tree_writes fs xs name (ty, sz) = None)"
  proof (cases "f \<in> set xs")
    case True
    then show ?thesis using Cons.IH Cons.prems(2) by simp
  next
    case False
    have "tree_writes fs ys name (ty, sz) = None"
      if "\<And>g. g \<in> set ys \<Longrightarrow> check_file fs g \<noteq> Inr (name, ty, sz)" for ys
      using that
    proof (induction ys)
      case Nil
      then show ?case by simp
    next
      case (Cons y ys)
      then show ?case by (cases "check_file fs y") (auto simp: map_add_def)
    qed
    moreover have "\<And>g. g \<in> set xs \<Longrightarrow> check_file fs g \<noteq> Inr (name, ty, sz)"
      using Cons.prems(2) False by auto
    ultimately show ?thesis using False by simp
  qed
  show ?case
  proof (cases "x = f")
    case True
    then show ?thesis using later assms(2) by (auto simp: map_add_def)
  next
    case False
    then have "f \<in> set xs" using Cons.prems(1) by simp
    then have l: "tree_writes fs xs name (ty, sz) = Some (MusicFontFile_init f)" using later by simp
    show ?thesis using l by (cases "check_file fs x") (auto simp: map_add_def)
  qed
qed


lemma walk_fonts_member:
  "font \<in> set (walk_fonts reg) \<longleftrightarrow>
     (\<exists>name ty sz F. map_of reg name = Some F \<and> (sz, font) \<in> set (files F ty))"
proof -
  have "font \<in> set (walk_fonts reg) \<longleftrightarrow>
      (\<exists>name ty sz. (name, ty, sz, font) \<in> set (AbstractMusicFontList_walk reg))"
    by (force simp: walk_fonts_def)
  then show ?thesis by (auto simp: walk_member)
qed

lemma table_member: "(sz, font) \<in> set (files F ty) \<Longrightarrow> (sz, font_file font) \<in> set (file_table F ty)"
  by (force simp: file_table_def)

lemma flagged_installable:
  assumes ok: "registry_ok R"
    and add: "add_flagged fs (walk_fonts R) [] = (None, inst)"
    and slot: "list_slot R name ty sz = Some font" and flag: "install font"
  shows "list_slot inst name ty sz = Some (MusicFontFile_init (font_file font))"
proof -
  let ?flagged = "map font_file (filter install (walk_fonts R))"
  obtain F where F: "map_of R name = Some F" "map_of (files F ty) sz = Some font"
    using slot by (auto simp: list_slot_def AbstractMusicFontList_family_def split: option.splits)
  have inF: "(sz, font) \<in> set (files F ty)" using F(2) by (rule map_of_SomeD)
  have okF: "family_ok name F" using registry_ok_family[OF ok F(1)] .
  have dist: "distinct (map fst (file_table F ty))"
    using okF all_types_all[of ty] by (auto simp: family_ok_def list_all_iff)
  have tree: "inst = AbstractMusicFontList_add_tree fs ?flagged []"
    and checked: "\<forall>font \<in> set (walk_fonts R). install font \<longrightarrow> (\<exists>k. check_file fs (font_file font) = Inr k)"
    using add_flagged_tree[OF add] by simp_all
  have w: "font \<in> set (walk_fonts R)" using F(1) inF by (auto simp: walk_fonts_member)
  then have mem: "font_file font \<in> set ?flagged" using flag by force
  have p: "parse_filename (font_file font) = Some (name, sz, ty)"
    using family_ok_parse[OF okF table_member[OF inF]] .
  obtain k where k: "check_file fs (font_file font) = Inr k" using checked w flag by blast
  have c: "check_file fs (font_file font) = Inr (name, ty, sz)"
    using k p check_file_parse[of fs "font_file font"] by (cases k) auto
  have u: "g = font_file font" if g: "g \<in> set ?flagged" "check_file fs g = Inr (name, ty, sz)" for g
  proof -
    obtain fg where fg: "fg \<in> set (walk_fonts R)" "g = font_file fg" using g(1) by auto
    then obtain n1 t1 s1 G where G: "map_of R n1 = Some G" "(s1, fg) \<in> set (files G t1)"
      by (auto simp: walk_fonts_member)
    have "parse_filename g = Some (n1, s1, t1)"
      using family_ok_parse[OF registry_ok_family[OF ok G(1)] table_member[OF G(2)]] fg(2) by simp
    moreover have "parse_filename g = Some (name, sz, ty)" using g(2) by (rule check_file_parse)
    ultimately have e: "n1 = name" "s1 = sz" "t1 = ty" by simp_all
    then have "G = F" using G(1) F(1) by simp
    then have "(sz, g) \<in> set (file_table F ty)" using table_member[OF G(2)] e fg(2) by simp
    moreover have "(sz, font_file font) \<in> set (file_table F ty)" using table_member[OF inF] .
    ultimately show ?thesis using dist by (meson eq_key_imp_eq_value)
  qed
  have "tree_writes fs ?flagged name (ty, sz) = Some (MusicFontFile_init (font_file font))"
    using mem c u by (rule tree_writes_unique)
  then show ?thesis by (simp add: tree list_slot_tree)
qed

lemma repo_flag_installable:
  "add_flagged fs (walk_fonts (families (fst (snd (MusicFontRepo_flag_for_install fs repo I))))) []
     = (fst (MusicFontRepo_flag_for_install fs repo I),
        installable_fonts (fst (snd (MusicFontRepo_flag_for_install fs repo I))))"
  by (simp add: MusicFontRepo_flag_for_install_def split: prod.splits)

text \<open>
  The lists that the program builds are well-formed: the empty list is, and \<open>add_file\<close>
  and \<open>add_tree\<close> keep a list so.
\<close>

lemma registry_ok_empty: "registry_ok []"
  by (simp add: registry_ok_def)

lemma list_all_update: "list_all P al \<Longrightarrow> P (k, v) \<Longrightarrow> list_all P (AList.update k v al)"
  by (induction al) auto

lemma table_update:
  "map (\<lambda>(sz, font). (sz, font_file font)) (AList.update k v al)
     = AList.update k (font_file v) (map (\<lambda>(sz, font). (sz, font_file font)) al)"
  by (induction al) auto

lemma add_table:
  "file_table (MusicFontFamily_add F ty sz f) ty' =
     (if ty' = ty then AList.update sz f (file_table F ty) else file_table F ty')"
  by (simp add: file_table_def MusicFontFamily_add_def table_update MusicFontFile_init_def)

lemma family_ok_add:
  assumes "family_ok fam F" "parse_filename f = Some (fam, sz, ty)"
  shows "family_ok fam (MusicFontFamily_add F ty sz f)"
proof -
  have "distinct (map fst (file_table (MusicFontFamily_add F ty sz f) ty')) \<and>
      list_all (\<lambda>(s, p). parse_filename p = Some (fam, s, ty'))
        (file_table (MusicFontFamily_add F ty sz f) ty')" for ty'
  proof -
    have F: "distinct (map fst (file_table F ty'))"
      "list_all (\<lambda>(s, p). parse_filename p = Some (fam, s, ty')) (file_table F ty')"
      using assms(1) all_types_all[of ty'] by (auto simp: family_ok_def list_all_iff)
    show ?thesis
    proof (cases "ty' = ty")
      case True
      then show ?thesis using F assms(2) by (simp add: add_table AList.distinct_update list_all_update)
    next
      case False
      then show ?thesis using F by (simp add: add_table)
    qed
  qed
  then show ?thesis by (simp add: family_ok_def list_all_iff)
qed

lemma family_ok_new: "family_ok fam (MusicFontFamily_empty\<lparr>family := Some fam\<rparr>)"
  by (simp add: family_ok_def list_all_iff file_table_def MusicFontFamily_empty_def)

lemma base_family_ok: "registry_ok reg \<Longrightarrow> family_ok fam (base_family reg fam)"
  by (auto simp: base_family_def family_ok_new registry_ok_family split: option.splits)

lemma registry_ok_update:
  "registry_ok reg \<Longrightarrow> family_ok fam F \<Longrightarrow> registry_ok (AList.update fam F reg)"
  by (simp add: registry_ok_def AList.distinct_update list_all_update)

lemma add_tree_step_registry_ok: "registry_ok reg \<Longrightarrow> registry_ok (add_tree_step fs f reg)"
proof (cases "check_file fs f")
  case (Inl e)
  then show "registry_ok reg \<Longrightarrow> registry_ok (add_tree_step fs f reg)" by (simp add: add_tree_step_skip)
next
  case (Inr k)
  assume ok: "registry_ok reg"
  obtain fam ty sz where k: "k = (fam, ty, sz)" by (cases k)
  have "parse_filename f = Some (fam, sz, ty)" using Inr k check_file_parse by simp
  then have "family_ok fam (MusicFontFamily_add (base_family reg fam) ty sz f)"
    using base_family_ok[OF ok] family_ok_add by simp
  then show "registry_ok (add_tree_step fs f reg)"
    using add_tree_step_ok[of fs f fam ty sz reg] Inr k ok by (simp add: registry_ok_update)
qed

lemma add_file_registry_ok:
  "registry_ok reg \<Longrightarrow> AbstractMusicFontList_add_file fs reg f = Inr reg' \<Longrightarrow> registry_ok reg'"
  using add_tree_step_registry_ok[of reg fs f] by (simp add: add_tree_step_def)

lemma add_tree_registry_ok:
  "registry_ok reg \<Longrightarrow> registry_ok (AbstractMusicFontList_add_tree fs found reg)"
  unfolding AbstractMusicFontList_add_tree_def
  by (induction found arbitrary: reg) (simp_all add: add_tree_step_registry_ok)

lemma repo_init_registry_ok: "registry_ok (families (MusicFontRepo_init fs r found))"
  by (simp add: MusicFontRepo_init_def add_tree_registry_ok registry_ok_empty)

lemma installed_init_registry_ok: "registry_ok (families (InstalledMusicFonts_init fs datadir found))"
  by (simp add: InstalledMusicFonts_init_def add_tree_registry_ok registry_ok_empty)

text \<open>\<open>install\<close> and \<open>remove\<close> keep the installed list well-formed as well.\<close>

lemma install_registry_ok:
  assumes "registry_ok (families inst)"
  shows "registry_ok (families (snd (snd (InstalledMusicFonts_install fs inst ty f copy))))"
proof -
  have reg: "registry_ok (families (snd (snd (register_target fs0 inst0 t))))"
    if "registry_ok (families inst0)" for fs0 inst0 t
    using that add_file_registry_ok[of "families inst0" fs0 t]
    by (auto simp: register_target_def split: sum.splits)
  have copy: "registry_ok (families (snd (snd (InstalledMusicFonts_install fs inst ty f True))))"
    using assms reg by (auto split: sum.splits)
  show ?thesis
  proof (cases copy)
    case True
    then show ?thesis using copy by simp
  next
    case False
    show ?thesis
    proof (cases "os_symlink fs f (install_target inst ty f)")
      case (Inr fs1)
      then show ?thesis using False assms reg by (subst InstalledMusicFonts_install.simps) simp
    next
      case (Inl x)
      show ?thesis
      proof (cases x)
        case (OSError m)
        then show ?thesis using False Inl assms by (subst InstalledMusicFonts_install.simps) simp
      next
        case NotImplementedError
        obtain e fs1 inst1 where r: "InstalledMusicFonts_install fs inst ty f True = (e, fs1, inst1)"
          by (cases "InstalledMusicFonts_install fs inst ty f True")
        then have ok1: "registry_ok (families inst1)" using copy by simp
        show ?thesis
          using False Inl NotImplementedError r ok1 reg[OF ok1]
          by (subst InstalledMusicFonts_install.simps) (cases e; simp)
      qed
    qed
  qed
qed

lemma remove_registry_ok:
  "registry_ok (families inst) \<Longrightarrow>
     registry_ok (families (snd (snd (InstalledMusicFonts_remove P fs inst xs))))"
proof (induction xs arbitrary: fs inst)
  case Nil
  then show ?case by simp
next
  case (Cons x xs)
  have "registry_ok (families (inst\<lparr>families := AList.delete x (families inst)\<rparr>))"
    using Cons.prems by (simp add: registry_ok_delete)
  then show ?case
    using Cons.IH Cons.prems by (auto split: option.splits prod.splits)
qed

text \<open>
  \<open>flag_for_install\<close> of a repository returns without an exception when every file of
  the repository still exists.
\<close>

lemma add_file_returns:
  "check_file fs f = Inr k \<Longrightarrow> \<exists>reg'. AbstractMusicFontList_add_file fs reg f = Inr reg'"
proof -
  assume c: "check_file fs f = Inr k"
  obtain fam ty sz where k: "k = (fam, ty, sz)" by (cases k)
  have "f \<noteq> []" using c by (rule check_file_nonempty)
  then show ?thesis
    using c k
    by (auto simp: AbstractMusicFontList_add_file_def MusicFontFamily_init_def
        MusicFontFamily_add_file_def MusicFontFamily_empty_def split: option.splits)
qed

lemma add_flagged_returns:
  "(\<And>font. font \<in> set fonts \<Longrightarrow> install font \<Longrightarrow> \<exists>k. check_file fs (font_file font) = Inr k)
     \<Longrightarrow> fst (add_flagged fs fonts inst) = None"
proof (induction fonts arbitrary: inst)
  case Nil
  then show ?case by simp
next
  case (Cons font fonts)
  show ?case
  proof (cases "install font")
    case False
    then show ?thesis using Cons by simp
  next
    case True
    then obtain k where "check_file fs (font_file font) = Inr k"
      using Cons.prems[of font] by auto
    then obtain reg' where "AbstractMusicFontList_add_file fs inst (font_file font) = Inr reg'"
      using add_file_returns by blast
    moreover have "fst (add_flagged fs fonts reg') = None" for reg'
      using Cons.IH[of reg'] Cons.prems by simp
    ultimately show ?thesis using True by auto
  qed
qed

lemma flag_for_install_returns:
  assumes ok: "registry_ok (families repo)"
    and ex: "\<And>name F p. map_of (families repo) name = Some F \<Longrightarrow> p \<in> set (family_paths F)
                \<Longrightarrow> path_exists fs p"
  shows "fst (MusicFontRepo_flag_for_install fs repo installed) = None"
proof -
  let ?R = "families (fst (snd (MusicFontRepo_flag_for_install fs repo installed)))"
  have g: "list_grows (families repo) ?R" by (rule repo_flag_grows)
  have "\<exists>k. check_file fs (font_file font) = Inr k" if w: "font \<in> set (walk_fonts ?R)" for font
  proof -
    obtain name ty sz F' where F': "map_of ?R name = Some F'" "(sz, font) \<in> set (files F' ty)"
      using w by (auto simp: walk_fonts_member)
    obtain F where F: "map_of (families repo) name = Some F" "family_grows F F'"
      using list_grows_family(2)[OF g F'(1)] by blast
    have t: "(sz, font_file font) \<in> set (file_table F ty)"
      using table_member[OF F'(2)] F(2) by (simp add: family_grows_def)
    then have "font_file font \<in> set (family_paths F)" by (auto simp: family_paths_table)
    then have e: "path_exists fs (font_file font)" using ex F(1) by blast
    have "parse_filename (font_file font) = Some (name, sz, ty)"
      using family_ok_parse[OF registry_ok_family[OF ok F(1)] t] .
    then show ?thesis using e by (simp add: check_file_def)
  qed
  then have "fst (add_flagged fs (walk_fonts ?R) []) = None"
    by (intro add_flagged_returns) blast
  then show ?thesis by (simp add: repo_flag_installable)
qed

text \<open>
  Claim C10. Take a repository with a well-formed list, a first \<open>flag_for_install\<close>
  against any target and then, with no new scan, a second one against any other target,
  on any file system. A file that is flagged after the first call is flagged after the
  second, in the same slot; and when the second call returns, the slot of that name,
  type and size of \<open>installable_fonts\<close> holds a file object of the same path, whatever
  the status of the slot in the second target.
\<close>

theorem install_flags_stay:
  assumes "registry_ok (families repo)"
    and "list_slot (families (fst (snd (MusicFontRepo_flag_for_install fs1 repo T1)))) name ty sz = Some font"
    and "install font"
  shows "(\<exists>font'.
            list_slot
              (families (fst (snd (MusicFontRepo_flag_for_install fs2
                                     (fst (snd (MusicFontRepo_flag_for_install fs1 repo T1))) T2))))
              name ty sz = Some font' \<and>
            install font' \<and> font_file font' = font_file font) \<and>
         (fst (MusicFontRepo_flag_for_install fs2
                 (fst (snd (MusicFontRepo_flag_for_install fs1 repo T1))) T2) = None \<longrightarrow>
          list_slot
            (installable_fonts (fst (snd (MusicFontRepo_flag_for_install fs2
                                            (fst (snd (MusicFontRepo_flag_for_install fs1 repo T1))) T2))))
            name ty sz = Some (MusicFontFile_init (font_file font)))"
proof -
  let ?repo1 = "fst (snd (MusicFontRepo_flag_for_install fs1 repo T1))"
  let ?second = "MusicFontRepo_flag_for_install fs2 ?repo1 T2"
  let ?repo2 = "fst (snd ?second)"
  have g1: "list_grows (families repo) (families ?repo1)" by (rule repo_flag_grows)
  have g2: "list_grows (families ?repo1) (families ?repo2)" by (rule repo_flag_grows)
  have ok2: "registry_ok (families ?repo2)"
    using list_grows_ok[OF list_grows_ok[OF assms(1) g1] g2] .
  obtain font' where f: "list_slot (families ?repo2) name ty sz = Some font'" "install font'"
      "font_file font' = font_file font"
    using list_grows_slot[OF g2 assms(2,3)] by blast
  have "list_slot (installable_fonts ?repo2) name ty sz = Some (MusicFontFile_init (font_file font))"
    if r: "fst ?second = None"
  proof -
    have "add_flagged fs2 (walk_fonts (families ?repo2)) [] = (None, installable_fonts ?repo2)"
      using repo_flag_installable[of fs2 ?repo1 T2] r by simp
    then show ?thesis using flagged_installable[OF ok2 _ f(1,2)] f(3) by simp
  qed
  then show ?thesis using f by blast
qed


theorem install_flags_stay_witness:
  "registry_ok (families example_repo) \<and>
   map_option install
     (list_slot (families (fst (snd (MusicFontRepo_flag_for_install example_fs example_repo
                                       (families example_installed))))) ''x'' Otf ''13'') = Some True \<and>
   list_status example_fs [(''x'', example_repo_family)] ''x'' Otf ''13'' = Some FILE \<and>
   fst (MusicFontRepo_flag_for_install example_fs
          (fst (snd (MusicFontRepo_flag_for_install example_fs example_repo (families example_installed))))
          [(''x'', example_repo_family)]) = None \<and>
   map_option install
     (list_slot
        (families (fst (snd (MusicFontRepo_flag_for_install example_fs
           (fst (snd (MusicFontRepo_flag_for_install example_fs example_repo (families example_installed))))
           [(''x'', example_repo_family)])))) ''x'' Otf ''13'') = Some True \<and>
   list_slot
     (installable_fonts (fst (snd (MusicFontRepo_flag_for_install example_fs
        (fst (snd (MusicFontRepo_flag_for_install example_fs example_repo (families example_installed))))
        [(''x'', example_repo_family)])))) ''x'' Otf ''13''
     = Some (MusicFontFile_init ''/repo/x-13.otf'')"
proof -
  let ?repo1 = "fst (snd (MusicFontRepo_flag_for_install example_fs example_repo (families example_installed)))"
  let ?T2 = "[(''x'', example_repo_family)]"
  let ?font = "\<lparr>font_file = ''/repo/x-13.otf'', status = Some FILE, install = True\<rparr>"
  have ok: "registry_ok (families example_repo)" by code_simp
  have slot: "list_slot (families ?repo1) ''x'' Otf ''13'' = Some ?font" by code_simp
  have there: "list_status example_fs ?T2 ''x'' Otf ''13'' = Some FILE" by code_simp
  have ret: "fst (MusicFontRepo_flag_for_install example_fs ?repo1 ?T2) = None" by code_simp
  have flag: "install ?font" by simp
  note t = install_flags_stay[OF ok slot flag, of example_fs ?T2]
  show ?thesis using t ok slot there ret by auto
qed

end
